theory Spec2Isabelle
  imports Main "HOL-Library.Word" "HOL-Library.Sublist"
begin

unbundle bit_operations_syntax

section \<open>PathLab: shallow embedding of the inspected subsystems\<close>

text \<open>
  Go's \<open>byte\<close> is \<open>8 word\<close>, \<open>uint16\<close> is \<open>16 word\<close>, \<open>uint32\<close> is \<open>32 word\<close> and
  \<open>uint64\<close> is \<open>64 word\<close>. Go's \<open>int\<close> is modelled as \<open>int\<close> wherever the values are
  lengths, counts and offsets of in-memory buffers (they stay far below \<open>2 ^ 63\<close>), and as
  a \<open>64 word\<close> read with \<open>sint\<close> where the source multiplies without a bound.
  A Go \<open>string\<close> is a byte sequence, here a \<open>string\<close> (list of 8-bit \<open>char\<close>).
\<close>

type_synonym byte = "8 word"

definition be16 :: "byte \<Rightarrow> byte \<Rightarrow> 16 word" where
  \<comment> \<open>\<open>binary.BigEndian.Uint16\<close> on a two-byte slice\<close>
  "be16 hi lo = push_bit 8 (ucast hi) OR ucast lo"

definition be32 :: "byte \<Rightarrow> byte \<Rightarrow> byte \<Rightarrow> byte \<Rightarrow> 32 word" where
  \<comment> \<open>\<open>binary.BigEndian.Uint32\<close> on a four-byte slice\<close>
  "be32 b0 b1 b2 b3 =
     push_bit 24 (ucast b0) OR push_bit 16 (ucast b1) OR push_bit 8 (ucast b2) OR ucast b3"

subsection \<open>internal/impair: the global impairment state\<close>

type_synonym ProfileName = string

definition ProfileClean :: ProfileName where
  "ProfileClean = ''CLEAN''"

definition ProfileAbortAfterCH :: ProfileName where
  "ProfileAbortAfterCH = ''ABORT_AFTER_CH''"

definition ProfileMTUBlackhole :: ProfileName where
  "ProfileMTUBlackhole = ''MTU1300_BLACKHOLE''"

definition ProfileLatencyJitter :: ProfileName where
  "ProfileLatencyJitter = ''LATENCY_50MS_JITTER_10''"

definition ProfileBandwidthLimit :: ProfileName where
  "ProfileBandwidthLimit = ''BANDWIDTH_1MBPS''"

lemmas Profile_defs =
  ProfileClean_def ProfileAbortAfterCH_def ProfileMTUBlackhole_def
  ProfileLatencyJitter_def ProfileBandwidthLimit_def

text \<open>\<open>time.Time\<close> is kept abstract: a point on an integer clock.\<close>

type_synonym time = int

record Config =
  Profile :: ProfileName
  ThresholdBytes :: int
  LatencyMs :: int
  JitterMs :: int
  BandwidthKbps :: int
  BandwidthDownKbps :: int
  BlackholeSeconds :: int
  Notes :: string
  UpdatedAt :: time

text \<open>The zero value of the struct, as \<open>Config{}\<close> and \<open>&State{}\<close> give it.\<close>

definition Config_zero :: Config where
  "Config_zero = \<lparr>Profile = [], ThresholdBytes = 0, LatencyMs = 0, JitterMs = 0,
     BandwidthKbps = 0, BandwidthDownKbps = 0, BlackholeSeconds = 0, Notes = [],
     UpdatedAt = 0\<rparr>"

record State =
  curr :: Config

definition State_zero :: State where
  "State_zero = \<lparr>curr = Config_zero\<rparr>"

text \<open>
  \<open>State.Apply\<close>. The mutex makes the body one atomic step; the wall clock
  \<open>time.Now().UTC()\<close> is the parameter \<open>now\<close>. The assignments are kept in the
  order of the source, each on the config the previous one left.
\<close>

definition Apply :: "time \<Rightarrow> State \<Rightarrow> Config \<Rightarrow> State" where
  "Apply now s cfg =
    (let cfg = cfg\<lparr>UpdatedAt := now\<rparr>;
         cfg = (if Profile cfg = [] then cfg\<lparr>Profile := ProfileClean\<rparr> else cfg);
         cfg = (if ThresholdBytes cfg = 0 then cfg\<lparr>ThresholdBytes := 1300\<rparr> else cfg);
         cfg = (if Profile cfg = ProfileLatencyJitter
                then (let c1 = (if LatencyMs cfg = 0 then cfg\<lparr>LatencyMs := 50\<rparr> else cfg)
                      in (if JitterMs c1 = 0 then c1\<lparr>JitterMs := 10\<rparr> else c1))
                else cfg);
         cfg = (if Profile cfg = ProfileBandwidthLimit
                then (if BandwidthKbps cfg = 0 then cfg\<lparr>BandwidthKbps := 1000\<rparr> else cfg)
                else cfg);
         cfg = (if BlackholeSeconds cfg \<le> 0 then cfg\<lparr>BlackholeSeconds := 30\<rparr> else cfg)
     in s\<lparr>curr := cfg\<rparr>)"

definition Get :: "State \<Rightarrow> Config" where
  "Get s = curr s"

definition Snapshot :: "State \<Rightarrow> Config" where
  "Snapshot s = Get s"

subsection \<open>internal/proxy: dispatch on the applied profile\<close>

text \<open>
  \<open>HandleConnection\<close> dials the upstream and then switches on \<open>cfg.Profile\<close>. The five
  strategies move bytes between sockets and are not modelled; the switch that picks one
  of them is. The outcome of the dial is the parameter \<open>dial_ok\<close>.
\<close>

datatype strategy =
  AbortAfterCH | MTUBlackhole | LatencyJitter | BandwidthLimit | CleanPassthrough

definition dispatch :: "ProfileName \<Rightarrow> strategy" where
  "dispatch p =
    (if p = ProfileAbortAfterCH then AbortAfterCH
     else if p = ProfileMTUBlackhole then MTUBlackhole
     else if p = ProfileLatencyJitter then LatencyJitter
     else if p = ProfileBandwidthLimit then BandwidthLimit
     else CleanPassthrough)"

datatype conn_error = DialUpstream

definition HandleConnection :: "bool \<Rightarrow> Config \<Rightarrow> conn_error + strategy" where
  "HandleConnection dial_ok cfg =
    (if \<not> dial_ok then Inl DialUpstream else Inr (dispatch (Profile cfg)))"

subsection \<open>internal/quicinspect: QUIC Initial metadata\<close>

record InitialSummary =
  Version :: "32 word"
  DCIDLen :: int
  SCIDLen :: int
  TokenLen :: int
  DeclaredLen :: int
  PacketNumber :: int
  DatagramSize :: int
  Valid :: bool
  Err :: string

definition InitialSummary_zero :: InitialSummary where
  "InitialSummary_zero = \<lparr>Version = 0, DCIDLen = 0, SCIDLen = 0, TokenLen = 0,
     DeclaredLen = 0, PacketNumber = 0, DatagramSize = 0, Valid = False, Err = []\<rparr>"

text \<open>
  \<open>readVarint\<close>: the value and the number of bytes consumed; \<open>(0, 0)\<close> when the slice is
  empty or shorter than the encoding announced by the two top bits of its first byte.
\<close>

definition readVarint :: "byte list \<Rightarrow> 64 word \<times> nat" where
  "readVarint b =
    (if length b = 0 then (0, 0)
     else
       let first = b ! 0;
           prefix = drop_bit 6 first;
           len = (if prefix = 0 then 1 else if prefix = 1 then 2
                  else if prefix = 2 then 4 else if prefix = 3 then 8 else (0::nat))
       in if length b < len then (0, 0)
          else (fold (\<lambda>i val. push_bit 8 val OR ucast (b ! i)) [1..<len]
                  (ucast (first AND 0x3f)), len))"

text \<open>
  \<open>ParseInitial\<close>. Every early \<open>return s\<close> of the source is one branch. Offsets are
  natural numbers; \<open>int(tlen)\<close> is \<open>unat tlen\<close>, the value having at most 62 bits.
  Every index read below is guarded by the length checks that precede it, as in the
  source.
\<close>

definition ParseInitial :: "byte list \<Rightarrow> InitialSummary" where
  "ParseInitial b =
    (let s = InitialSummary_zero\<lparr>DatagramSize := int (length b)\<rparr> in
     if length b < 7 then s\<lparr>Err := ''too short''\<rparr>
     else
       let first = b ! 0 in
       if first AND 0x80 = 0 then s\<lparr>Err := ''not long header''\<rparr>
       else
         let s = s\<lparr>PacketNumber := uint (first AND 0x03) + 1\<rparr>;
             s = s\<lparr>Version := be32 (b ! 1) (b ! 2) (b ! 3) (b ! 4)\<rparr>;
             dcidLen = unat (b ! 5);
             off = 6
         in if length b < off + dcidLen + 1 then s\<lparr>Err := ''trunc dcid''\<rparr>
            else
              let s = s\<lparr>DCIDLen := int dcidLen\<rparr>;
                  off = off + dcidLen;
                  scidLen = unat (b ! off);
                  off = off + 1
              in if length b < off + scidLen then s\<lparr>Err := ''trunc scid''\<rparr>
                 else
                   let s = s\<lparr>SCIDLen := int scidLen\<rparr>;
                       off = off + scidLen
                   in if off \<ge> length b then s\<lparr>Err := ''trunc token len''\<rparr>
                      else
                        let (tlen, n) = readVarint (drop off b) in
                        if n = 0 then s\<lparr>Err := ''bad token varint''\<rparr>
                        else
                          let off = off + n in
                          if length b < off + unat tlen then s\<lparr>Err := ''trunc token''\<rparr>
                          else
                            let s = s\<lparr>TokenLen := int (unat tlen)\<rparr>;
                                off = off + unat tlen
                            in if off \<ge> length b then s\<lparr>Err := ''trunc length''\<rparr>
                               else
                                 let (dlen, n2) = readVarint (drop off b) in
                                 if n2 = 0 then s\<lparr>Err := ''bad length varint''\<rparr>
                                 else
                                   let s = s\<lparr>DeclaredLen := int (unat dlen)\<rparr>
                                   in s\<lparr>Valid := (Err s = [])\<rparr>)"

subsection \<open>Go's strings, strconv and hex functions used by the parsers\<close>

text \<open>
  Go's \<open>strings\<close> functions on ASCII text. \<open>ToLower\<close>, \<open>ToUpper\<close>, \<open>TrimSpace\<close> and
  \<open>Fields\<close> are Unicode-aware in Go; the definitions below are their ASCII paths and
  agree with Go on every string that \<open>isASCII\<close> accepts.
\<close>

definition isASCII :: "string \<Rightarrow> bool" where
  "isASCII s \<longleftrightarrow> list_all (\<lambda>c. (of_char c :: nat) < 128) s"

definition isSpace :: "char \<Rightarrow> bool" where
  \<comment> \<open>tab, line feed, vertical tab, form feed, carriage return, space\<close>
  "isSpace c \<longleftrightarrow> c \<in> set [CHR 0x09, CHR 0x0A, CHR 0x0B, CHR 0x0C, CHR 0x0D, CHR '' '']"

definition toLower :: "char \<Rightarrow> char" where
  "toLower c =
    (let n = (of_char c :: nat) in if 65 \<le> n \<and> n \<le> 90 then char_of (n + 32) else c)"

definition toUpper :: "char \<Rightarrow> char" where
  "toUpper c =
    (let n = (of_char c :: nat) in if 97 \<le> n \<and> n \<le> 122 then char_of (n - 32) else c)"

definition ToLower :: "string \<Rightarrow> string" where
  "ToLower s = map toLower s"

definition ToUpper :: "string \<Rightarrow> string" where
  "ToUpper s = map toUpper s"

definition TrimSpace :: "string \<Rightarrow> string" where
  "TrimSpace s = rev (dropWhile isSpace (rev (dropWhile isSpace s)))"

fun fields_from :: "string \<Rightarrow> string \<Rightarrow> string list" where
  "fields_from cur [] = (if cur = [] then [] else [cur])"
| "fields_from cur (c # cs) =
     (if isSpace c then (if cur = [] then fields_from [] cs else cur # fields_from [] cs)
      else fields_from (cur @ [c]) cs)"

definition Fields :: "string \<Rightarrow> string list" where
  "Fields s = fields_from [] s"

text \<open>
  \<open>strings.SplitN(s, sep, 2)\<close> for a non-empty separator: cut at the first occurrence of
  \<open>sep\<close>, or give back \<open>s\<close> alone.
\<close>

fun Cut :: "string \<Rightarrow> string \<Rightarrow> string \<Rightarrow> (string \<times> string) option" where
  "Cut pre sep [] = (if sep = [] then Some (pre, []) else None)"
| "Cut pre sep (c # cs) =
     (if prefix sep (c # cs) then Some (pre, drop (length sep) (c # cs))
      else Cut (pre @ [c]) sep cs)"

definition SplitN2 :: "string \<Rightarrow> string \<Rightarrow> string list" where
  "SplitN2 s sep = (case Cut [] sep s of None \<Rightarrow> [s] | Some (a, b) \<Rightarrow> [a, b])"

text \<open>
  \<open>strconv.Atoi\<close>: an optional sign, then one or more decimal digits, in the range of
  a 64-bit \<open>int\<close>; \<open>None\<close> is the error return.
\<close>

definition isDigit :: "char \<Rightarrow> bool" where
  "isDigit c \<longleftrightarrow> 48 \<le> (of_char c :: nat) \<and> (of_char c :: nat) \<le> 57"

definition Atoi :: "string \<Rightarrow> int option" where
  "Atoi s =
    (let (neg, ds) =
       (case s of
          [] \<Rightarrow> (False, [])
        | c # cs \<Rightarrow> if c = CHR ''-'' then (True, cs)
                    else if c = CHR ''+'' then (False, cs) else (False, s))
     in if ds = [] \<or> \<not> list_all isDigit ds then None
        else
          let n = fold (\<lambda>c acc. acc * 10 + (of_char c - 48)) ds (0::int);
              v = (if neg then - n else n)
          in if v < - (2 ^ 63) \<or> 2 ^ 63 - 1 < v then None else Some v)"

text \<open>\<open>hex.DecodeString\<close>: pairs of hex digits of either case; an odd length is an error.\<close>

definition fromHexChar :: "char \<Rightarrow> byte option" where
  "fromHexChar c =
    (let n = (of_char c :: nat) in
     if 48 \<le> n \<and> n \<le> 57 then Some (of_nat (n - 48))
     else if 97 \<le> n \<and> n \<le> 102 then Some (of_nat (n - 97 + 10))
     else if 65 \<le> n \<and> n \<le> 70 then Some (of_nat (n - 65 + 10))
     else None)"

fun DecodeString :: "string \<Rightarrow> byte list option" where
  "DecodeString [] = Some []"
| "DecodeString [c] = None"
| "DecodeString (p # q # cs) =
     (case fromHexChar p of
        None \<Rightarrow> None
      | Some a \<Rightarrow>
          (case fromHexChar q of
             None \<Rightarrow> None
           | Some b \<Rightarrow>
               (case DecodeString cs of
                  None \<Rightarrow> None
                | Some rest \<Rightarrow> Some ((push_bit 4 a OR b) # rest))))"

definition ParseBool :: "string \<Rightarrow> bool option" where
  "ParseBool str =
    (if str \<in> set [''1'', ''t'', ''T'', ''TRUE'', ''true'', ''True''] then Some True
     else if str \<in> set [''0'', ''f'', ''F'', ''FALSE'', ''false'', ''False''] then Some False
     else None)"

subsection \<open>internal/tlsinspect: the ClientHello inspector\<close>

text \<open>The explicit list of the \<open>switch\<close> in \<open>isGrease\<close>.\<close>

definition grease_values :: "16 word set" where
  "grease_values = {0x0a0a, 0x1a1a, 0x2a2a, 0x3a3a, 0x4a4a, 0x5a5a, 0x6a6a, 0x7a7a,
                    0x8a8a, 0x9a9a, 0xaaaa, 0xbaba, 0xcaca, 0xdada, 0xeaea, 0xfafa}"

definition isGrease :: "16 word \<Rightarrow> bool" where
  "isGrease v =
    (if (ucast (drop_bit 8 v) :: byte) = ucast (v AND 0xff) \<and>
        (ucast (v AND 0xff) :: byte) = 0x0a
     then True
     else if v \<in> grease_values then True
     else False)"

subsection \<open>internal/tlsinspect: assembling the ClientHello\<close>

text \<open>
  \<open>Result\<close>, the metadata of one ClientHello. The fields \<open>SNI\<close>, \<open>ALPN\<close>,
  \<open>CipherSuites\<close> and \<open>JA3\<close> are filled by the best-effort walk of the hello body.
\<close>

record Result =
  HandshakeBytes :: int
  RecordsBytes :: int
  PQCHint :: bool
  ClientHelloLen :: int
  SNI :: string
  ALPN :: "string list"
  CipherSuites :: int
  JA3 :: string

definition Result_zero :: Result where
  "Result_zero = \<lparr>HandshakeBytes = 0, RecordsBytes = 0, PQCHint = False, ClientHelloLen = 0,
     SNI = [], ALPN = [], CipherSuites = 0, JA3 = []\<rparr>"

text \<open>The five error returns of \<open>ParseClientHello\<close>, in source order.\<close>

datatype tls_error =
  ReadRecordHeader
  | InvalidRecordLength
  | ReadRecordBody
  | UnexpectedContentType byte "16 word"
  | NotClientHello byte

text \<open>
  The handshake length \<open>int(b[1])<<16 | int(b[2])<<8 | int(b[3])\<close>, on \<open>int\<close> as in the
  source.
\<close>

definition be24 :: "byte \<Rightarrow> byte \<Rightarrow> byte \<Rightarrow> int" where
  "be24 b1 b2 b3 = push_bit 16 (uint b1) OR push_bit 8 (uint b2) OR uint b3"

text \<open>
  The block \<open>if need < 0 && buf.Len() >= 4\<close> of the loop body: it either fails with
  \<open>not a ClientHello\<close> or gives the new \<open>need\<close> and \<open>res\<close>.
\<close>

definition handshake_header :: "byte list \<Rightarrow> int \<Rightarrow> Result \<Rightarrow> tls_error + (int \<times> Result)" where
  "handshake_header buf need res =
    (if need < 0 \<and> int (length buf) \<ge> 4 then
       let handshakeType = buf ! 0 in
       if handshakeType \<noteq> 0x01 then Inl (NotClientHello handshakeType)
       else
         let hl = be24 (buf ! 1) (buf ! 2) (buf ! 3)
         in Inr (hl + 4, res\<lparr>ClientHelloLen := hl\<rparr>)
     else Inr (need, res))"

text \<open>
  The \<open>for\<close> loop of \<open>ParseClientHello\<close>. The reader \<open>r\<close> is the list of bytes it
  will still deliver; \<open>io.ReadFull\<close> of \<open>n\<close> bytes fails when fewer than \<open>n\<close> remain
  (end of stream, deadline or socket error) and otherwise takes exactly \<open>n\<close>. The loop
  state is the reader, \<open>buf\<close>, \<open>totalRecordsBytes\<close>, \<open>need\<close> and \<open>res\<close>; the result is
  \<open>raw\<close>, \<open>res\<close>, \<open>totalRecordsBytes\<close> and the error. Every pass consumes at least six
  bytes, so the loop ends on every finite stream.
\<close>

function read_records ::
  "byte list \<Rightarrow> byte list \<Rightarrow> int \<Rightarrow> int \<Rightarrow> Result \<Rightarrow> byte list \<times> Result \<times> int \<times> tls_error option"
where
  "read_records r buf totalRecordsBytes need res =
    (if length r < 5 then ([], res, totalRecordsBytes, Some ReadRecordHeader)
     else
       let hdr = take 5 r;
           r1 = drop 5 r;
           contentType = hdr ! 0;
           version = be16 (hdr ! 1) (hdr ! 2);
           len = unat (be16 (hdr ! 3) (hdr ! 4))
       in if len \<le> 0 \<or> len > 2 ^ 14 + 256
          then ([], res, totalRecordsBytes, Some InvalidRecordLength)
          else if length r1 < len then ([], res, totalRecordsBytes, Some ReadRecordBody)
          else
            let body = take len r1;
                r2 = drop len r1;
                total = totalRecordsBytes + (5 + int len)
            in if contentType \<noteq> 0x16
               then ([], res, total, Some (UnexpectedContentType contentType version))
               else
                 let buf1 = buf @ body in
                 (case handshake_header buf1 need res of
                    Inl e \<Rightarrow> ([], res, total, Some e)
                  | Inr (need1, res1) \<Rightarrow>
                      if need1 > 0 \<and> int (length buf1) \<ge> need1
                      then (take (nat need1) buf1, res1, total, None)
                      else read_records r2 buf1 total need1 res1))"
  by pat_completeness auto
termination
  by (relation "measure (\<lambda>(r, buf, t, n, res). length r)") auto

text \<open>
  \<open>bytes.Contains\<close> and \<open>strings.Contains\<close>: the subslice occurs at some position of
  the slice.
\<close>

fun Contains :: "'a list \<Rightarrow> 'a list \<Rightarrow> bool" where
  "Contains [] subslice = (subslice = [])"
| "Contains (x # xs) subslice = (prefix subslice (x # xs) \<or> Contains xs subslice)"

text \<open>
  The best-effort walk of the hello body (the block \<open>if len(raw) >= 4\<close>). A byte slice
  turned into a Go string keeps its bytes; \<open>strconv.Itoa\<close> prints decimal digits.
\<close>

definition bytes_string :: "byte list \<Rightarrow> string" where
  "bytes_string bs = map (\<lambda>b. char_of (unat b)) bs"

function digits :: "nat \<Rightarrow> string" where
  "digits n = (if n < 10 then [char_of (48 + n)] else digits (n div 10) @ [char_of (48 + n mod 10)])"
  by pat_completeness auto
termination
  by (relation "measure (\<lambda>n. n)") auto

definition Itoa :: "int \<Rightarrow> string" where
  "Itoa i = (if i < 0 then CHR ''-'' # digits (nat (- i)) else digits (nat i))"

fun Join :: "string list \<Rightarrow> string \<Rightarrow> string" where
  "Join [] sep = []"
| "Join [a] sep = a"
| "Join (a # b # rest) sep = a @ sep @ Join (b # rest) sep"

text \<open>
  The loop over the entries of a \<open>server_name\<close> list: \<open>p\<close> is the read position in
  \<open>edata\<close>, the result is the new value of \<open>res.SNI\<close>.
\<close>

function sni_loop :: "byte list \<Rightarrow> nat \<Rightarrow> nat \<Rightarrow> string \<Rightarrow> string" where
  "sni_loop edata listLen p sni =
    (if p + 3 \<le> 2 + listLen then
       let nameType = edata ! p in
       if p + 3 > length edata then sni
       else
         let nameLen = unat (be16 (edata ! (p + 1)) (edata ! (p + 2)));
             p1 = p + 3
         in if p1 + nameLen > length edata then sni
            else if nameType = 0 then ToLower (bytes_string (take nameLen (drop p1 edata)))
            else sni_loop edata listLen (p1 + nameLen) sni
     else sni)"
  by pat_completeness auto
termination
  by (relation "measure (\<lambda>(edata, listLen, p, sni). 2 + listLen - p)") auto

definition server_name :: "byte list \<Rightarrow> string \<Rightarrow> string" where
  "server_name edata sni =
    (if length edata \<ge> 2 then
       let listLen = unat (be16 (edata ! 0) (edata ! 1)) in
       if listLen + 2 \<le> length edata then sni_loop edata listLen 2 sni else sni
     else sni)"

text \<open>The loop over the entries of an ALPN protocol list; the result is \<open>res.ALPN\<close>.\<close>

function alpn_loop :: "byte list \<Rightarrow> nat \<Rightarrow> nat \<Rightarrow> string list \<Rightarrow> string list" where
  "alpn_loop edata listLen p alpn =
    (if p < 2 + listLen \<and> p < length edata then
       if p \<ge> length edata then alpn
       else
         let l = unat (edata ! p);
             p1 = p + 1
         in if p1 + l > length edata then alpn
            else alpn_loop edata listLen (p1 + l)
                   (if l > 0 then alpn @ [bytes_string (take l (drop p1 edata))] else alpn)
     else alpn)"
  by pat_completeness auto
termination
  by (relation "measure (\<lambda>(edata, listLen, p, alpn). 2 + listLen - p)") auto

definition alpn_protocols :: "byte list \<Rightarrow> string list \<Rightarrow> string list" where
  "alpn_protocols edata alpn =
    (if length edata \<ge> 2 then
       let listLen = unat (be16 (edata ! 0) (edata ! 1)) in
       if listLen + 2 \<le> length edata then alpn_loop edata listLen 2 alpn else alpn
     else alpn)"

text \<open>
  The counted loops \<open>for p := 2; p < 2+glen; p += 2\<close> and \<open>for p := 1; p < 1+plen; p++\<close>
  that collect the JA3 parts of \<open>supported_groups\<close> and \<open>ec_point_formats\<close>, and the
  loop over the cipher suites.
\<close>

definition u16_values :: "byte list \<Rightarrow> nat \<Rightarrow> nat \<Rightarrow> string list" where
  \<comment> \<open>the non-GREASE 16-bit values at \<open>start\<close>, \<open>start + 2\<close>, \<dots> below \<open>start + len\<close>, in decimal\<close>
  "u16_values b start len =
     map (\<lambda>v. Itoa (uint v))
       (filter (\<lambda>v. \<not> isGrease v)
          (map (\<lambda>k. be16 (b ! (start + 2 * k)) (b ! (start + 2 * k + 1)))
             [0..<(len + 1) div 2]))"

definition supported_groups :: "byte list \<Rightarrow> string list" where
  "supported_groups edata =
    (if length edata \<ge> 2 then
       let glen = unat (be16 (edata ! 0) (edata ! 1)) in
       if glen + 2 \<le> length edata \<and> glen mod 2 = 0 then u16_values edata 2 glen else []
     else [])"

definition ec_point_formats :: "byte list \<Rightarrow> string list" where
  "ec_point_formats edata =
    (if length edata \<ge> 1 then
       let plen = unat (edata ! 0) in
       if plen + 1 \<le> length edata then map (\<lambda>p. Itoa (uint (edata ! p))) [1..<1 + plen] else []
     else [])"

text \<open>
  The loop \<open>for off+4 <= extEnd\<close> over the extensions. Its state is the offset and what
  it collects: \<open>res.SNI\<close>, \<open>res.ALPN\<close>, \<open>ja3Exts\<close>, \<open>ja3Groups\<close> and \<open>ja3PF\<close>.
\<close>

function ext_loop ::
  "byte list \<Rightarrow> nat \<Rightarrow> nat \<Rightarrow> string \<times> string list \<times> string list \<times> string list \<times> string list \<Rightarrow>
   string \<times> string list \<times> string list \<times> string list \<times> string list"
where
  "ext_loop body extEnd off (sni, alpn, ja3Exts, ja3Groups, ja3PF) =
    (if off + 4 \<le> extEnd then
       let etype = be16 (body ! off) (body ! (off + 1));
           elen = unat (be16 (body ! (off + 2)) (body ! (off + 3)));
           off1 = off + 4
       in if off1 + elen > extEnd then (sni, alpn, ja3Exts, ja3Groups, ja3PF)
          else
            let edata = take elen (drop off1 body);
                (sni1, alpn1, ja3Groups1, ja3PF1) =
                  (if etype = 0x0000 then (server_name edata sni, alpn, ja3Groups, ja3PF)
                   else if etype = 0x0010 then (sni, alpn_protocols edata alpn, ja3Groups, ja3PF)
                   else if etype = 0x000a
                   then (sni, alpn, ja3Groups @ supported_groups edata, ja3PF)
                   else if etype = 0x000b
                   then (sni, alpn, ja3Groups, ja3PF @ ec_point_formats edata)
                   else (sni, alpn, ja3Groups, ja3PF));
                ja3Exts1 = (if \<not> isGrease etype then ja3Exts @ [Itoa (uint etype)] else ja3Exts)
            in ext_loop body extEnd (off1 + elen) (sni1, alpn1, ja3Exts1, ja3Groups1, ja3PF1)
     else (sni, alpn, ja3Exts, ja3Groups, ja3PF))"
  by pat_completeness auto
termination
  by (relation "measure (\<lambda>(body, extEnd, off, st). extEnd - off)") auto

declare digits.simps [simp del] sni_loop.simps [simp del] alpn_loop.simps [simp del]
  ext_loop.simps [simp del]

text \<open>
  The nested bounds checks. \<open>md5hex\<close> stands for
  \<open>hex.EncodeToString(md5.Sum([]byte(s)))\<close> of the standard library. Whatever check
  fails, the fields collected so far stay in \<open>res\<close>.
\<close>

definition parse_body :: "(string \<Rightarrow> string) \<Rightarrow> byte list \<Rightarrow> Result \<Rightarrow> Result" where
  "parse_body md5hex raw res =
    (if length raw \<ge> 4 then
       let body = drop 4 raw;
           off = 0
       in if length body \<ge> off + 34 then
            let off = off + 34 in
            if length body > off then
              let sidLen = unat (body ! off) in
              if length body \<ge> off + 1 + sidLen then
                let off = off + 1 + sidLen in
                if length body \<ge> off + 2 then
                  let csLen = unat (be16 (body ! off) (body ! (off + 1)));
                      off = off + 2
                  in if csLen mod 2 = 0 \<and> length body \<ge> off + csLen then
                       let cipherStart = off;
                           res = res\<lparr>CipherSuites := int (csLen div 2)\<rparr>;
                           off = off + csLen
                       in if length body > off then
                            let compLen = unat (body ! off) in
                            if length body \<ge> off + 1 + compLen then
                              let off = off + 1 + compLen in
                              if length body \<ge> off + 2 then
                                let extLen = unat (be16 (body ! off) (body ! (off + 1)));
                                    off = off + 2
                                in if length body \<ge> off + extLen then
                                     let extEnd = off + extLen;
                                         legacyVersion = uint (be16 (body ! 0) (body ! 1));
                                         ja3Ciphers = u16_values body cipherStart csLen;
                                         (sni, alpn, ja3Exts, ja3Groups, ja3PF) =
                                           ext_loop body extEnd off (SNI res, ALPN res, [], [], []);
                                         ja3Str = Itoa legacyVersion @ '','' @
                                           Join ja3Ciphers ''-'' @ '','' @
                                           Join ja3Exts ''-'' @ '','' @
                                           Join ja3Groups ''-'' @ '','' @
                                           Join ja3PF ''-''
                                     in res\<lparr>SNI := sni, ALPN := alpn, JA3 := md5hex ja3Str\<rparr>
                                   else res
                              else res
                            else res
                          else res
                     else res
                else res
              else res
            else res
          else res
     else res)"

text \<open>
  \<open>ParseClientHello\<close> returns the triple \<open>(raw, res, err)\<close> of the source; on an error
  \<open>raw\<close> is \<open>nil\<close> and \<open>res\<close> is what had been filled so far.
\<close>

definition ParseClientHello ::
  "(string \<Rightarrow> string) \<Rightarrow> byte list \<Rightarrow> byte list \<times> Result \<times> tls_error option"
where
  "ParseClientHello md5hex r =
    (case read_records r [] 0 (- 1) Result_zero of
       (raw, res, totalRecordsBytes, Some e) \<Rightarrow> ([], res, Some e)
     | (raw, res, totalRecordsBytes, None) \<Rightarrow>
         let res = (if Contains raw [0x11, 0xec] then res\<lparr>PQCHint := True\<rparr> else res);
             res = res\<lparr>HandshakeBytes := int (length raw)\<rparr>;
             res = res\<lparr>RecordsBytes := totalRecordsBytes\<rparr>;
             res = parse_body md5hex raw res
         in (raw, res, None))"

text \<open>
  A stand-in for the digest where a closed statement needs one; nothing stated with it
  depends on the digest.
\<close>

definition no_digest :: "string \<Rightarrow> string" where
  "no_digest s = []"

declare read_records.simps [simp del]

subsection \<open>internal/rules: the rule DSL\<close>

text \<open>
  \<open>parseInt\<close>. The hex branch accumulates \<open>n = n*256 + int(bb)\<close> in a 64-bit \<open>int\<close>,
  which wraps; it is computed on \<open>64 word\<close> and read back signed.
\<close>

definition parseInt :: "string \<Rightarrow> int option" where
  "parseInt v =
    (if prefix ''0x'' v then
       (case DecodeString (drop 2 v) of
          None \<Rightarrow> None
        | Some b \<Rightarrow> Some (sint (fold (\<lambda>bb n. n * 256 + ucast bb) b (0 :: 64 word))))
     else Atoi v)"

text \<open>The error returns of \<open>parseLine\<close>, one constructor for each \<open>fmt.Errorf\<close>.\<close>

datatype rule_error =
  MissingWhen
  | MissingThen
  | InvalidProfile
  | InvalidConditionFormat
  | BadInt
  | UnsupportedOperator string
  | BadBool
  | UnsupportedOperatorPqcHint string
  | Ja3OnlyEq
  | Ja3Expected32
  | Ja3InvalidHex
  | EmptySubstring
  | EmptyAlpnToken
  | UnsupportedField string

record Rule =
  Raw :: string
  Predicate :: "Result \<Rightarrow> bool"
  Profile_rule :: ProfileName

record RuleSet =
  Rules :: "Rule list"

text \<open>The operator \<open>switch\<close> shared by the fields \<open>ch_bytes\<close> and \<open>cipher_count\<close>.\<close>

definition numeric_predicate ::
  "(Result \<Rightarrow> int) \<Rightarrow> string \<Rightarrow> int \<Rightarrow> rule_error + (Result \<Rightarrow> bool)" where
  "numeric_predicate field op n =
    (if op = ''>'' then Inr (\<lambda>r. field r > n)
     else if op = ''>='' then Inr (\<lambda>r. field r \<ge> n)
     else if op = ''<'' then Inr (\<lambda>r. field r < n)
     else if op = ''<='' then Inr (\<lambda>r. field r \<le> n)
     else if op = ''=='' then Inr (\<lambda>r. field r = n)
     else Inl (UnsupportedOperator op))"

definition isLowerHex :: "char \<Rightarrow> bool" where
  "isLowerHex c \<longleftrightarrow>
     \<not> (((of_char c :: nat) < 48 \<or> 57 < (of_char c :: nat)) \<and>
        ((of_char c :: nat) < 97 \<or> 102 < (of_char c :: nat)))"

text \<open>The \<open>switch field\<close> of \<open>parseLine\<close>: the closure built for one condition.\<close>

definition condition_predicate ::
  "string \<Rightarrow> string \<Rightarrow> string \<Rightarrow> rule_error + (Result \<Rightarrow> bool)" where
  "condition_predicate field op val =
    (if field = ''ch_bytes'' then
       (case parseInt val of
          None \<Rightarrow> Inl BadInt
        | Some n \<Rightarrow> numeric_predicate HandshakeBytes op n)
     else if field = ''pqc_hint'' then
       (case ParseBool val of
          None \<Rightarrow> Inl BadBool
        | Some b \<Rightarrow>
            if op = ''=='' then Inr (\<lambda>r. PQCHint r = b)
            else Inl (UnsupportedOperatorPqcHint op))
     else if field = ''cipher_count'' then
       (case parseInt val of
          None \<Rightarrow> Inl BadInt
        | Some n \<Rightarrow> numeric_predicate CipherSuites op n)
     else if field = ''ja3'' then
       (if op \<noteq> ''=='' then Inl Ja3OnlyEq
        else
          let hexVal = ToLower val in
          if length hexVal \<noteq> 32 then Inl Ja3Expected32
          else if \<not> list_all isLowerHex hexVal then Inl Ja3InvalidHex
          else Inr (\<lambda>r. JA3 r = hexVal))
     else if field = ''sni_contains'' then
       (if val = [] then Inl EmptySubstring
        else
          let needle = ToLower val in
          Inr (\<lambda>r. SNI r \<noteq> [] \<and> Contains (ToLower (SNI r)) needle))
     else if field = ''alpn_contains'' then
       (if val = [] then Inl EmptyAlpnToken
        else
          let needle = ToLower val in
          Inr (\<lambda>r. list_ex (\<lambda>p. ToLower p = needle) (ALPN r)))
     else Inl (UnsupportedField field))"

definition parseLine :: "string \<Rightarrow> rule_error + Rule" where
  "parseLine line =
    (let lower = ToLower line in
     if \<not> prefix ''when '' lower then Inl MissingWhen
     else
       let parts = SplitN2 (drop (length ''when '') lower) '' then '' in
       if length parts \<noteq> 2 then Inl MissingThen
       else
         let cond = TrimSpace (parts ! 0);
             action = TrimSpace (parts ! 1);
             prof = ToUpper action
         in if prof = [] then Inl InvalidProfile
            else
              let fields = Fields cond in
              (case (if length fields = 3
                     then Inr (fields ! 0, fields ! 1, fields ! 2)
                     else if length fields = 2
                     then Inr (fields ! 0, ''contains'', fields ! 1)
                     else Inl InvalidConditionFormat) of
                 Inl e \<Rightarrow> Inl e
               | Inr (field, op, val) \<Rightarrow>
                   (case condition_predicate field op val of
                      Inl e \<Rightarrow> Inl e
                    | Inr predicate \<Rightarrow>
                        Inr \<lparr>Raw = line, Predicate = predicate, Profile_rule = prof\<rparr>)))"

text \<open>
  \<open>Parse\<close>. The \<open>bufio.Scanner\<close> over the request body is what it yields: the lines that
  \<open>s.Scan()\<close> and \<open>s.Text()\<close> deliver, in order, and the error \<open>s.Err()\<close> reports once
  \<open>Scan\<close> has returned false. \<open>Parse_lines\<close> is the \<open>for s.Scan()\<close> loop with its
  counter \<open>lineNo\<close> and the set built so far; \<open>Parse\<close> returns the pair
  \<open>(Set, error)\<close> of the source.
\<close>

datatype scan_error = ScanFailed

datatype parse_error = LineError nat rule_error | ScannerError scan_error

fun Parse_lines :: "string list \<Rightarrow> nat \<Rightarrow> RuleSet \<Rightarrow> RuleSet \<times> parse_error option" where
  "Parse_lines [] lineNo rs = (rs, None)"
| "Parse_lines (tok # rest) lineNo rs =
     (let lineNo = lineNo + 1;
          line = TrimSpace tok
      in if line = [] \<or> prefix ''#'' line then Parse_lines rest lineNo rs
         else
           (case parseLine line of
              Inl err \<Rightarrow> (\<lparr>Rules = []\<rparr>, Some (LineError lineNo err))
            | Inr rw \<Rightarrow> Parse_lines rest lineNo (rs\<lparr>Rules := Rules rs @ [rw]\<rparr>)))"


text \<open>\<open>Set.Match\<close>: the \<open>range\<close> loop over the rules.\<close>

fun Match_rules :: "Rule list \<Rightarrow> Result \<Rightarrow> ProfileName \<times> bool" where
  "Match_rules [] res = ([], False)"
| "Match_rules (r # rs) res =
     (if Predicate r res then (Profile_rule r, True) else Match_rules rs res)"

definition Match :: "RuleSet \<Rightarrow> Result \<Rightarrow> ProfileName \<times> bool" where
  "Match s res = Match_rules (Rules s) res"

subsection \<open>cmd/pathlab: the rules endpoint and the per-connection flow\<close>




text \<open>
  The receipt literal built at the end of the connection goroutine. The struct is
  declared in \<open>internal/receipts\<close>; its fields are the ones the literal assigns
  (\<open>hash\<close> and \<open>sig\<close> are added later by the receipt manager).
\<close>

record Receipt =
  ConnID :: int
  Timestamp :: time
  ClientAddr :: string
  UpstreamAddr :: string
  AppliedProfile :: string
  GlobalProfile :: string
  RuleMatched :: string
  HandshakeBytes_receipt :: int
  CipherCount :: int
  PQCHint_receipt :: bool
  SNI_receipt :: string
  ALPN_receipt :: "string list"
  JA3_receipt :: string
  Outcome :: string
  Error :: string

text \<open>
  The goroutine started for each accepted connection, from \<open>state.Get()\<close> to the receipt
  handed to \<open>rcpts.Add\<close>. The client stream is the byte list \<open>r\<close>; what
  \<open>proxy.HandleConnection\<close> returns for the chosen config (\<open>None\<close> for \<open>nil\<close>, else the
  error text) is the parameter \<open>handle\<close>; \<open>md5hex\<close> is the digest passed on to
  \<open>ParseClientHello\<close>.
\<close>

definition serve_conn ::
  "(string \<Rightarrow> string) \<Rightarrow> int \<Rightarrow> time \<Rightarrow> string \<Rightarrow> string \<Rightarrow> State \<Rightarrow> RuleSet \<Rightarrow> byte list \<Rightarrow>
   (Config \<Rightarrow> string option) \<Rightarrow> Receipt"
where
  "serve_conn md5hex connId now clientAddr upstreamAddr state ruleSet r handle =
    (let baseCfg = Get state;
         (raw, res, perr) = ParseClientHello md5hex r;
         chosen = Profile baseCfg;
         chosen = (if perr = None
                   then (case Match ruleSet res of
                           (prof, ok) \<Rightarrow> if ok then prof else chosen)
                   else chosen);
         cfg = baseCfg\<lparr>Profile := chosen\<rparr>;
         err = handle cfg;
         outcome = (if err \<noteq> None then ''error'' else ''closed'');
         errStr = (case err of None \<Rightarrow> [] | Some e \<Rightarrow> e)
     in \<lparr>ConnID = connId, Timestamp = now, ClientAddr = clientAddr,
         UpstreamAddr = upstreamAddr, AppliedProfile = Profile cfg,
         GlobalProfile = Profile baseCfg, RuleMatched = chosen,
         HandshakeBytes_receipt = HandshakeBytes res, CipherCount = CipherSuites res,
         PQCHint_receipt = PQCHint res, SNI_receipt = SNI res, ALPN_receipt = ALPN res,
         JA3_receipt = JA3 res, Outcome = outcome, Error = errStr\<rparr>)"

text \<open>
  Vocabulary for stating what the loop consumed: a TLS record on the wire is its
  five-byte header followed by its body; a handshake record has content type \<open>0x16\<close> and
  a body of the announced, admissible length.
\<close>

type_synonym tls_record = "byte list \<times> byte list"

definition wire :: "tls_record \<Rightarrow> byte list" where
  "wire rc = fst rc @ snd rc"

definition handshake_record :: "tls_record \<Rightarrow> bool" where
  "handshake_record rc \<longleftrightarrow>
     length (fst rc) = 5 \<and> fst rc ! 0 = 0x16 \<and>
     unat (be16 (fst rc ! 3) (fst rc ! 4)) = length (snd rc) \<and>
     1 \<le> length (snd rc) \<and> length (snd rc) \<le> 2 ^ 14 + 256"

definition payload :: "tls_record list \<Rightarrow> byte list" where
  "payload recs = concat (map snd recs)"

text \<open>
  The loop invariant (\<open>pending\<close>: the hello is not complete yet) and what holds of the
  returned bytes (\<open>assembled\<close>).
\<close>

definition pending :: "byte list \<Rightarrow> int \<Rightarrow> Result \<Rightarrow> bool" where
  "pending buf need res \<longleftrightarrow>
     (need < 0 \<longrightarrow> length buf < 4) \<and>
     (0 \<le> need \<longrightarrow> int (length buf) < need \<and> 4 \<le> length buf \<and> buf ! 0 = 0x01 \<and>
        need = ClientHelloLen res + 4 \<and>
        ClientHelloLen res = be24 (buf ! 1) (buf ! 2) (buf ! 3))"

definition assembled ::
  "byte list \<Rightarrow> Result \<Rightarrow> tls_record list \<Rightarrow> byte list \<Rightarrow> Result \<Rightarrow> bool" where
  "assembled buf res recs raw res' \<longleftrightarrow>
     4 \<le> length raw \<and> raw = take (length raw) (buf @ payload recs) \<and>
     length raw \<le> length (buf @ payload recs) \<and>
     length (buf @ payload (butlast recs)) < length raw \<and>
     raw ! 0 = 0x01 \<and> int (length raw) = ClientHelloLen res' + 4 \<and>
     ClientHelloLen res' = be24 (raw ! 1) (raw ! 2) (raw ! 3) \<and>
     res\<lparr>ClientHelloLen := ClientHelloLen res'\<rparr> = res'"




section \<open>Properties\<close>

lemma Apply_Profile:
  "Profile (Snapshot (Apply now s cfg)) = (if Profile cfg = [] then ProfileClean else Profile cfg)"
  by (simp add: Apply_def Snapshot_def Get_def Let_def)


subsection \<open>Impairment state\<close>

text \<open>
  C5 (as stated, refuted): after \<open>Apply\<close> of a config whose profile is a non-empty name
  outside the five defined ones, \<open>Snapshot\<close> would return the profile \<open>CLEAN\<close>. At the
  name \<open>FOO\<close> the snapshot still carries \<open>FOO\<close>.
\<close>

theorem C5_unknown_profile_not_reset:
  "''FOO'' \<noteq> [] \<and>
   ''FOO'' \<notin> {ProfileClean, ProfileAbortAfterCH, ProfileMTUBlackhole,
               ProfileLatencyJitter, ProfileBandwidthLimit} \<and>
   Profile (Snapshot (Apply 0 State_zero (Config_zero\<lparr>Profile := ''FOO''\<rparr>))) \<noteq> ProfileClean"
  by (simp add: Apply_def Snapshot_def Get_def Let_def Config_zero_def State_zero_def
        Profile_defs)

text \<open>
  C5 (amended): after \<open>Apply\<close> of a config whose profile is a non-empty name outside the
  five defined ones, \<open>Snapshot\<close> returns a config that carries that same name unchanged;
  the fallback to clean pass-through happens only where the connection engine dispatches
  on the name.
\<close>

theorem C5_unknown_profile_kept:
  assumes "Profile cfg \<noteq> []"
    and "Profile cfg \<notin> {ProfileClean, ProfileAbortAfterCH, ProfileMTUBlackhole,
                          ProfileLatencyJitter, ProfileBandwidthLimit}"
  shows "Profile (Snapshot (Apply now s cfg)) = Profile cfg \<and>
         HandleConnection True (Snapshot (Apply now s cfg)) = Inr CleanPassthrough"
proof -
  have kept: "Profile (Snapshot (Apply now s cfg)) = Profile cfg"
    using assms(1) by (simp add: Apply_Profile)
  have "dispatch (Profile cfg) = CleanPassthrough"
    using assms(2) by (simp add: dispatch_def)
  with kept show ?thesis
    by (simp add: HandleConnection_def)
qed

theorem C5_unknown_profile_kept_witness:
  "Profile (Snapshot (Apply 7 State_zero (Config_zero\<lparr>Profile := ''FOO''\<rparr>))) = ''FOO'' \<and>
   HandleConnection True (Snapshot (Apply 7 State_zero (Config_zero\<lparr>Profile := ''FOO''\<rparr>)))
     = Inr CleanPassthrough"
  using C5_unknown_profile_kept [of "Config_zero\<lparr>Profile := ''FOO''\<rparr>" 7 State_zero]
  by (simp add: Profile_defs)

subsection \<open>GREASE values\<close>

lemma and_ff_take_bit: "(v::16 word) AND 0xff = take_bit 8 v"
  by (simp add: take_bit_eq_mask mask_eq_exp_minus_1)

lemma and_f_take_bit: "(v::16 word) AND 0xf = take_bit 4 v"
  by (simp add: take_bit_eq_mask mask_eq_exp_minus_1)

lemma nibble_word_cases:
  fixes k :: "16 word"
  assumes "unat k < 16"
  shows "k \<in> {0, 1, 2, 3, 4, 5, 6, 7, 8, 9, 10, 11, 12, 13, 14, 15}"
  using assms by (simp add: word_unat_eq_iff) arith

lemma masked_low_nibble:
  fixes v :: "16 word"
  assumes "v AND 0x0F0F = 0x0A0A"
  shows "take_bit 4 v = 0xA"
proof -
  have "take_bit 4 (v AND 0x0F0F) = take_bit 4 (0x0A0A :: 16 word)"
    using assms by simp
  then show ?thesis
    by (simp add: take_bit_and flip: and_f_take_bit)
qed

lemma grease_shape:
  fixes v :: "16 word"
  assumes A: "v AND 0x0F0F = 0x0A0A" and B: "drop_bit 8 v = v AND 0xFF"
  shows "\<exists>k. unat k < 16 \<and> v = push_bit 8 (push_bit 4 k + 0xA) + (push_bit 4 k + 0xA)"
proof -
  define x where "x = take_bit 8 v"
  define k where "k = drop_bit 4 x"
  have x4: "take_bit 4 x = 0xA"
    using masked_low_nibble [OF A] by (simp add: x_def)
  have "push_bit 4 (drop_bit 4 x) + take_bit 4 x = x"
    by (rule bits_ident)
  then have xk: "x = push_bit 4 k + 0xA"
    using x4 by (simp add: k_def)
  have "push_bit 8 (drop_bit 8 v) + take_bit 8 v = v"
    by (rule bits_ident)
  then have vx: "v = push_bit 8 x + x"
    using B by (simp add: and_ff_take_bit x_def)
  have "take_bit 8 (unat v) < 2 ^ 8"
    by (rule take_bit_nat_less_exp)
  then have "unat x < 2 ^ 8"
    unfolding x_def by (simp add: unsigned_take_bit_eq)
  then have "unat k < 16"
    by (simp add: k_def drop_bit_eq_div unat_div)
  with vx xk show ?thesis by blast
qed

lemma pattern_imp_listed:
  fixes v :: "16 word"
  assumes A: "v AND 0x0F0F = 0x0A0A" and B: "drop_bit 8 v = v AND 0xFF"
  shows "v \<in> grease_values"
proof -
  obtain k where k: "unat k < 16"
    and v: "v = push_bit 8 (push_bit 4 k + 0xA) + (push_bit 4 k + 0xA)"
    using grease_shape [OF A B] by blast
  from nibble_word_cases [OF k] show ?thesis
    unfolding v grease_values_def by (elim insertE emptyE) simp_all
qed

lemma listed_imp_pattern:
  fixes v :: "16 word"
  assumes "v \<in> grease_values"
  shows "v AND 0x0F0F = 0x0A0A \<and> drop_bit 8 v = v AND 0xFF"
  using assms unfolding grease_values_def by (elim insertE emptyE) simp_all

lemma byte_test_only_0a0a:
  fixes v :: "16 word"
  assumes 1: "(ucast (drop_bit 8 v) :: byte) = ucast (v AND 0xff)"
    and 2: "(ucast (v AND 0xff) :: byte) = 0x0a"
  shows "v = 0x0a0a"
proof -
  have lo: "take_bit 8 v = 0x0a"
  proof -
    have "(ucast (ucast (take_bit 8 v) :: byte) :: 16 word) = ucast (0x0a :: byte)"
      using 2 by (simp add: and_ff_take_bit)
    then show ?thesis by (simp add: unsigned_ucast_eq)
  qed
  have hi: "drop_bit 8 v = 0x0a"
  proof -
    have "(ucast (ucast (drop_bit 8 v) :: byte) :: 16 word) = ucast (0x0a :: byte)"
      using 1 2 by simp
    moreover have "take_bit 8 (drop_bit 8 v) = drop_bit 8 v"
      by (rule bit_word_eqI) (auto simp: bit_simps dest: bit_imp_le_length)
    ultimately show ?thesis by (simp add: unsigned_ucast_eq)
  qed
  have "push_bit 8 (drop_bit 8 v) + take_bit 8 v = v"
    by (rule bits_ident)
  then show ?thesis by (simp add: lo hi)
qed

lemma isGrease_listed: "isGrease v \<longleftrightarrow> v \<in> grease_values"
proof
  assume "isGrease v"
  then show "v \<in> grease_values"
    using byte_test_only_0a0a [of v]
    by (auto simp: isGrease_def grease_values_def split: if_splits)
next
  assume "v \<in> grease_values"
  then show "isGrease v" by (simp add: isGrease_def)
qed

text \<open>
  C7: for every 16-bit value \<open>v\<close>, \<open>isGrease v\<close> holds exactly when
  \<open>v AND 0x0F0F = 0x0A0A\<close> and the high byte \<open>v >> 8\<close> equals the low byte
  \<open>v AND 0xFF\<close>; these are exactly the sixteen listed values.
\<close>

theorem C7_isGrease_pattern:
  "isGrease v = (v AND 0x0F0F = 0x0A0A \<and> drop_bit 8 v = v AND 0xFF) \<and>
   isGrease v = (v \<in> grease_values) \<and> card grease_values = 16"
proof -
  have "isGrease v = (v AND 0x0F0F = 0x0A0A \<and> drop_bit 8 v = v AND 0xFF)"
    using pattern_imp_listed [of v] listed_imp_pattern [of v]
    by (auto simp: isGrease_listed)
  moreover have "card grease_values = 16"
    by (simp add: grease_values_def)
  ultimately show ?thesis
    by (simp add: isGrease_listed)
qed

subsection \<open>QUIC Initial parser\<close>

lemma uint_and_3: "uint ((x::byte) AND 3) \<in> {0, 1, 2, 3}"
proof -
  have "uint (x AND 3) \<le> uint (3 :: byte)"
    by (rule word_and_le1 [THEN word_le_def [THEN iffD1]])
  moreover have "0 \<le> uint (x AND 3)" by simp
  ultimately show ?thesis by (simp; arith)
qed

lemma ParseInitial_PacketNumber:
  "PacketNumber (ParseInitial b) =
     (if length b < 7 \<or> b ! 0 AND 0x80 = 0 then 0 else uint (b ! 0 AND 0x03) + 1)"
  by (simp add: ParseInitial_def InitialSummary_zero_def Let_def split: prod.splits)

lemma ParseInitial_Valid_long:
  "Valid (ParseInitial b) \<Longrightarrow> 7 \<le> length b \<and> b ! 0 AND 0x80 \<noteq> 0"
  by (simp add: ParseInitial_def InitialSummary_zero_def Let_def split: prod.splits if_splits)

text \<open>
  C4 (as stated, refuted): for every datagram the summary would have
  \<open>packet_number_len\<close> in \<open>{1,2,3,4}\<close>. The one-byte datagram \<open>[0x80]\<close> is rejected as
  too short before the field is assigned, and the field is \<open>0\<close>.
\<close>

theorem C4_short_datagram_pn_zero:
  "PacketNumber (ParseInitial [0x80]) \<notin> {1, 2, 3, 4}"
  by (simp add: ParseInitial_PacketNumber)

text \<open>
  C4 (amended): \<open>packet_number_len\<close> is \<open>0\<close> when the datagram has fewer than 7 bytes or
  its first byte has bit 7 clear, and is otherwise the low two bits of the first byte
  plus one, a value in \<open>{1,2,3,4}\<close>; in particular it is in \<open>{1,2,3,4}\<close> for every
  summary marked valid.
\<close>

theorem C4_packet_number_len:
  "PacketNumber (ParseInitial b) =
     (if length b < 7 \<or> b ! 0 AND 0x80 = 0 then 0 else uint (b ! 0 AND 0x03) + 1) \<and>
   (7 \<le> length b \<and> b ! 0 AND 0x80 \<noteq> 0 \<longrightarrow> PacketNumber (ParseInitial b) \<in> {1, 2, 3, 4}) \<and>
   (Valid (ParseInitial b) \<longrightarrow> PacketNumber (ParseInitial b) \<in> {1, 2, 3, 4})"
proof -
  have long: "PacketNumber (ParseInitial b) \<in> {1, 2, 3, 4}"
    if "7 \<le> length b" "b ! 0 AND 0x80 \<noteq> 0"
    using that uint_and_3 [of "b ! 0"] by (auto simp: ParseInitial_PacketNumber)
  then have "Valid (ParseInitial b) \<longrightarrow> PacketNumber (ParseInitial b) \<in> {1, 2, 3, 4}"
    using ParseInitial_Valid_long [of b] by blast
  with long show ?thesis
    using ParseInitial_PacketNumber [of b] by blast
qed

theorem C4_packet_number_len_witness:
  "Valid (ParseInitial [0xC3, 0, 0, 0, 1, 1, 0x11, 1, 0x22, 0x00, 0x05, 0, 0, 0, 0, 0]) \<and>
   PacketNumber (ParseInitial [0xC3, 0, 0, 0, 1, 1, 0x11, 1, 0x22, 0x00, 0x05, 0, 0, 0, 0, 0]) = 4"
proof -
  have v: "Valid (ParseInitial [0xC3, 0, 0, 0, 1, 1, 0x11, 1, 0x22, 0x00, 0x05, 0, 0, 0, 0, 0])"
    by (simp add: ParseInitial_def InitialSummary_zero_def readVarint_def Let_def)
  show ?thesis
    using v C4_packet_number_len [of "[0xC3, 0, 0, 0, 1, 1, 0x11, 1, 0x22, 0x00, 0x05, 0, 0, 0, 0, 0]"]
    by simp
qed

subsection \<open>ClientHello assembly\<close>

lemma be24_nonneg: "0 \<le> be24 b1 b2 b3"
  by (simp add: be24_def)


lemma handshake_header_Inr:
  assumes "handshake_header b need res = Inr (need1, res1)"
  shows "(need < 0 \<and> 4 \<le> length b \<and> b ! 0 = 0x01 \<and>
            need1 = be24 (b ! 1) (b ! 2) (b ! 3) + 4 \<and>
            res1 = res\<lparr>ClientHelloLen := be24 (b ! 1) (b ! 2) (b ! 3)\<rparr>) \<or>
         (\<not> (need < 0 \<and> 4 \<le> length b) \<and> need1 = need \<and> res1 = res)"
  using assms by (auto simp: handshake_header_def Let_def split: if_splits)

lemma read_records_None:
  assumes "read_records r buf tot need res = (raw, res', tot', None)"
  obtains hdr body r2 need1 res1 where
    "r = hdr @ body @ r2" "handshake_record (hdr, body)"
    "handshake_header (buf @ body) need res = Inr (need1, res1)"
    "(0 < need1 \<and> need1 \<le> int (length (buf @ body)) \<and>
        raw = take (nat need1) (buf @ body) \<and> res' = res1 \<and>
        tot' = tot + (5 + int (length body))) \<or>
     (\<not> (0 < need1 \<and> need1 \<le> int (length (buf @ body))) \<and>
        read_records r2 (buf @ body) (tot + (5 + int (length body))) need1 res1
          = (raw, res', tot', None))"
proof -
  define hdr where "hdr = take 5 r"
  define r1 where "r1 = drop 5 r"
  define len where "len = unat (be16 (hdr ! 3) (hdr ! 4))"
  define body where "body = take len r1"
  define r2 where "r2 = drop len r1"
  note unf = assms [unfolded read_records.simps [of r buf tot need res],
      folded hdr_def r1_def, unfolded Let_def, folded len_def, folded body_def r2_def]
  have l5: "\<not> length r < 5" using unf by (auto split: if_splits)
  have lenok: "\<not> (len \<le> 0 \<or> len > 2 ^ 14 + 256)" using unf l5 by (auto split: if_splits)
  have bodyok: "\<not> length r1 < len" using unf l5 lenok by (auto split: if_splits)
  have ct: "hdr ! 0 = 0x16" using unf l5 lenok bodyok by (auto split: if_splits)
  have "r1 = body @ r2" by (simp add: body_def r2_def)
  moreover have "r = hdr @ r1" by (simp add: hdr_def r1_def)
  ultimately have r: "r = hdr @ body @ r2" by simp
  have lb: "length body = len" using bodyok by (simp add: body_def)
  have hr: "handshake_record (hdr, body)"
    using l5 lenok ct lb by (simp add: handshake_record_def hdr_def len_def)
  obtain need1 res1 where hh: "handshake_header (buf @ body) need res = Inr (need1, res1)"
    using unf l5 lenok bodyok ct by (auto split: if_splits sum.splits)
  have "(0 < need1 \<and> need1 \<le> int (length (buf @ body)) \<and>
        raw = take (nat need1) (buf @ body) \<and> res' = res1 \<and>
        tot' = tot + (5 + int (length body))) \<or>
     (\<not> (0 < need1 \<and> need1 \<le> int (length (buf @ body))) \<and>
        read_records r2 (buf @ body) (tot + (5 + int (length body))) need1 res1
          = (raw, res', tot', None))"
    using unf l5 lenok bodyok ct hh lb by (auto split: if_splits)
  with r hr hh show thesis by (rule that)
qed

lemma pending_step:
  assumes p: "pending buf need res"
    and hh: "handshake_header (buf @ body) need res = Inr (need1, res1)"
  shows "(need1 < 0 \<longrightarrow> length (buf @ body) < 4) \<and>
         (0 \<le> need1 \<longrightarrow> 4 \<le> need1 \<and> 4 \<le> length (buf @ body) \<and> (buf @ body) ! 0 = 0x01 \<and>
            need1 = ClientHelloLen res1 + 4 \<and>
            ClientHelloLen res1 = be24 ((buf @ body) ! 1) ((buf @ body) ! 2) ((buf @ body) ! 3)) \<and>
         (need < 0 \<longrightarrow> length buf < 4) \<and>
         (0 \<le> need \<longrightarrow> need1 = need \<and> int (length buf) < need) \<and>
         ClientHelloLen_update (\<lambda>_. ClientHelloLen res1) res = res1"
proof -
  let ?b = "buf @ body"
  let ?hl = "be24 (?b ! 1) (?b ! 2) (?b ! 3)"
  from handshake_header_Inr [OF hh] show ?thesis
  proof
    assume a: "need < 0 \<and> 4 \<le> length ?b \<and> ?b ! 0 = 0x01 \<and> need1 = ?hl + 4 \<and>
      res1 = res\<lparr>ClientHelloLen := ?hl\<rparr>"
    have "0 \<le> ?hl" by (rule be24_nonneg)
    with a p show ?thesis by (simp add: pending_def)
  next
    assume b: "\<not> (need < 0 \<and> 4 \<le> length ?b) \<and> need1 = need \<and> res1 = res"
    show ?thesis
    proof (cases "need < 0")
      case True
      with b p show ?thesis by (simp add: pending_def)
    next
      case False
      with p have k: "int (length buf) < need" "4 \<le> length buf" "buf ! 0 = 0x01"
        "need = ClientHelloLen res + 4" "ClientHelloLen res = be24 (buf ! 1) (buf ! 2) (buf ! 3)"
        by (simp_all add: pending_def)
      from k(2) have "?b ! 0 = buf ! 0" "?b ! 1 = buf ! 1" "?b ! 2 = buf ! 2" "?b ! 3 = buf ! 3"
        by (auto simp: nth_append)
      with b k False show ?thesis by simp
    qed
  qed
qed


lemma read_records_shape:
  assumes "read_records r buf tot need res = (raw, res', tot', None)"
    and "pending buf need res"
  shows "\<exists>recs rest. recs \<noteq> [] \<and> r = concat (map wire recs) @ rest \<and>
           list_all handshake_record recs \<and>
           tot' = tot + 5 * int (length recs) + int (length (payload recs)) \<and>
           assembled buf res recs raw res'"
  using assms
proof (induction "length r" arbitrary: r buf tot need res rule: less_induct)
  case less
  from less.prems(1) obtain hdr body r2 need1 res1 where
    r: "r = hdr @ body @ r2" and hr: "handshake_record (hdr, body)"
    and hh: "handshake_header (buf @ body) need res = Inr (need1, res1)"
    and alt: "(0 < need1 \<and> need1 \<le> int (length (buf @ body)) \<and>
        raw = take (nat need1) (buf @ body) \<and> res' = res1 \<and>
        tot' = tot + (5 + int (length body))) \<or>
     (\<not> (0 < need1 \<and> need1 \<le> int (length (buf @ body))) \<and>
        read_records r2 (buf @ body) (tot + (5 + int (length body))) need1 res1
          = (raw, res', tot', None))"
    by (rule read_records_None)
  define b where "b = buf @ body"
  note st = pending_step [OF less.prems(2) hh, folded b_def]
  have lb: "length buf \<le> length b" by (simp add: b_def)
  from alt show ?case
  proof
    assume "0 < need1 \<and> need1 \<le> int (length (buf @ body)) \<and>
        raw = take (nat need1) (buf @ body) \<and> res' = res1 \<and> tot' = tot + (5 + int (length body))"
    then have d: "0 < need1" "need1 \<le> int (length b)" "raw = take (nat need1) b"
      "res' = res1" "tot' = tot + (5 + int (length body))"
      by (simp_all add: b_def)
    have n4: "4 \<le> need1" using d(1) st by simp
    have lraw: "length raw = nat need1" using d(2,3) by simp
    have nth: "raw ! 0 = b ! 0" "raw ! 1 = b ! 1" "raw ! 2 = b ! 2" "raw ! 3 = b ! 3"
      using d(3) n4 by simp_all
    have "length buf < length raw"
    proof (cases "need < 0")
      case True
      then have "length buf < 4" using st by simp
      moreover have "4 \<le> nat need1" using n4 by simp
      ultimately show ?thesis using lraw by linarith
    next
      case False
      then have "need1 = need" "int (length buf) < need" using st by simp_all
      then show ?thesis using lraw by linarith
    qed
    moreover have "raw = take (length raw) b" using d(3) lraw by simp
    moreover have "length raw \<le> length b" using lraw d(2) by simp
    moreover have "4 \<le> length raw" using lraw n4 by simp
    moreover have "int (length raw) = ClientHelloLen res' + 4" using lraw d(1,4) st by simp
    moreover have "ClientHelloLen res' = be24 (raw ! 1) (raw ! 2) (raw ! 3)"
      using nth d(1,4) st by simp
    moreover have "raw ! 0 = 0x01" using nth d(1) st by simp
    moreover have "res\<lparr>ClientHelloLen := ClientHelloLen res'\<rparr> = res'" using d(4) st by simp
    ultimately have "assembled buf res [(hdr, body)] raw res'"
      unfolding assembled_def payload_def by (simp add: b_def)
    moreover have "r = concat (map wire [(hdr, body)]) @ r2"
      using r by (simp add: wire_def)
    moreover have "tot' = tot + 5 * int (length [(hdr, body)]) + int (length (payload [(hdr, body)]))"
      using d(5) by (simp add: payload_def)
    ultimately show ?case using hr
      by (intro exI [of _ "[(hdr, body)]"] exI [of _ r2]) simp
  next
    assume "\<not> (0 < need1 \<and> need1 \<le> int (length (buf @ body))) \<and>
        read_records r2 (buf @ body) (tot + (5 + int (length body))) need1 res1 = (raw, res', tot', None)"
    then have m: "\<not> (0 < need1 \<and> need1 \<le> int (length b))"
      "read_records r2 b (tot + (5 + int (length body))) need1 res1 = (raw, res', tot', None)"
      by (simp_all add: b_def)
    have "length hdr = 5" using hr by (simp add: handshake_record_def)
    then have shorter: "length r2 < length r" using r by simp
    have p1: "pending b need1 res1"
      unfolding pending_def using st m(1) by auto
    from less.hyps [OF shorter m(2) p1] obtain recs rest where
      ih: "recs \<noteq> []" "r2 = concat (map wire recs) @ rest" "list_all handshake_record recs"
        "tot' = tot + (5 + int (length body)) + 5 * int (length recs) + int (length (payload recs))"
        "assembled b res1 recs raw res'"
      by blast
    let ?recs = "(hdr, body) # recs"
    have "assembled buf res ?recs raw res'"
    proof -
      have "buf @ payload ?recs = b @ payload recs"
        by (simp add: payload_def b_def)
      moreover have "buf @ payload (butlast ?recs) = b @ payload (butlast recs)"
        using ih(1) by (simp add: payload_def b_def)
      moreover have "res\<lparr>ClientHelloLen := ClientHelloLen res'\<rparr> = res'"
      proof -
        have "res1\<lparr>ClientHelloLen := ClientHelloLen res'\<rparr> = res'"
          using ih(5) [unfolded assembled_def] by blast
        moreover have "res\<lparr>ClientHelloLen := ClientHelloLen res1\<rparr> = res1"
          using st by simp
        ultimately show ?thesis
          by (metis Result.update_convs(4) Result.surjective Result.select_convs Result.ext_inject)
      qed
      ultimately show ?thesis
        using ih(5) unfolding assembled_def by (simp only:)
    qed
    moreover have "r = concat (map wire ?recs) @ rest"
      using r ih(2) by (simp add: wire_def)
    moreover have "tot' = tot + 5 * int (length ?recs) + int (length (payload ?recs))"
      using ih(4) by (simp add: payload_def)
    moreover have "list_all handshake_record ?recs"
      using hr ih(3) by simp
    ultimately show ?case
      by (intro exI [of _ ?recs] exI [of _ rest]) simp
  qed
qed

lemma be24_arith: "be24 b1 b2 b3 = 65536 * uint b1 + 256 * uint b2 + uint b3"
proof -
  have 1: "push_bit 8 (uint b2) AND uint b3 = 0"
    by (rule bit_eqI) (auto simp: bit_simps dest: bit_imp_le_length)
  have 2: "push_bit 16 (uint b1) AND (push_bit 8 (uint b2) OR uint b3) = 0"
    by (rule bit_eqI) (auto simp: bit_simps dest: bit_imp_le_length)
  have i: "push_bit 8 (uint b2) OR uint b3 = push_bit 8 (uint b2) + uint b3"
    using disjunctive_add_eq_or [OF 1] by simp
  have o: "push_bit 16 (uint b1) OR (push_bit 8 (uint b2) OR uint b3)
      = push_bit 16 (uint b1) + (push_bit 8 (uint b2) OR uint b3)"
    using disjunctive_add_eq_or [OF 2] by simp
  have "be24 b1 b2 b3 = push_bit 16 (uint b1) + (push_bit 8 (uint b2) + uint b3)"
    unfolding be24_def by (subst o, subst i) (rule refl)
  then show ?thesis by (simp add: push_bit_eq_mult)
qed

lemma Contains_sublist: "Contains s subslice \<longleftrightarrow> sublist subslice s"
  by (induction s) (simp_all add: sublist_Cons_right)

lemma Contains_iff: "Contains s subslice \<longleftrightarrow> (\<exists>pre post. s = pre @ subslice @ post)"
  by (simp add: Contains_sublist sublist_def)

lemma pending_start: "pending [] (- 1) Result_zero"
  by (simp add: pending_def)

lemma parse_body_keeps [simp]:
  "HandshakeBytes (parse_body md5hex raw res) = HandshakeBytes res"
  "RecordsBytes (parse_body md5hex raw res) = RecordsBytes res"
  "PQCHint (parse_body md5hex raw res) = PQCHint res"
  "ClientHelloLen (parse_body md5hex raw res) = ClientHelloLen res"
  by (simp_all add: parse_body_def Let_def split: prod.splits)

lemma ParseClientHello_None:
  assumes "ParseClientHello md5hex r = (raw, res, None)"
  obtains res0 tot where
    "read_records r [] 0 (- 1) Result_zero = (raw, res0, tot, None)"
    "HandshakeBytes res = int (length raw)" "RecordsBytes res = tot"
    "PQCHint res = (Contains raw [0x11, 0xec] \<or> PQCHint res0)"
    "ClientHelloLen res = ClientHelloLen res0"
proof -
  obtain raw0 res0 tot e where rr: "read_records r [] 0 (- 1) Result_zero = (raw0, res0, tot, e)"
    by (cases "read_records r [] 0 (- 1) Result_zero") auto
  with assms have e: "e = None" and raw: "raw0 = raw"
    by (auto simp: ParseClientHello_def Let_def split: option.splits)
  have res: "res = parse_body md5hex raw
      ((if Contains raw [0x11, 0xec] then res0\<lparr>PQCHint := True\<rparr> else res0)
         \<lparr>HandshakeBytes := int (length raw), RecordsBytes := tot\<rparr>)"
    using assms rr e raw by (simp add: ParseClientHello_def Let_def)
  have "HandshakeBytes res = int (length raw)" "RecordsBytes res = tot"
    "PQCHint res = (Contains raw [0x11, 0xec] \<or> PQCHint res0)"
    "ClientHelloLen res = ClientHelloLen res0"
    by (simp_all add: res)
  with rr e raw show thesis by (simp add: that)
qed

lemma ParseClientHello_shape:
  assumes "ParseClientHello md5hex r = (raw, res, None)"
  shows "\<exists>recs rest. recs \<noteq> [] \<and> r = concat (map wire recs) @ rest \<and>
           list_all handshake_record recs \<and>
           RecordsBytes res = 5 * int (length recs) + int (length (payload recs)) \<and>
           HandshakeBytes res = int (length raw) \<and>
           PQCHint res = Contains raw [0x11, 0xec] \<and>
           4 \<le> length raw \<and> raw = take (length raw) (payload recs) \<and>
           length raw \<le> length (payload recs) \<and>
           length (payload (butlast recs)) < length raw \<and>
           raw ! 0 = 0x01 \<and> int (length raw) = ClientHelloLen res + 4 \<and>
           ClientHelloLen res = be24 (raw ! 1) (raw ! 2) (raw ! 3)"
proof -
  from assms obtain res0 tot where
    rr: "read_records r [] 0 (- 1) Result_zero = (raw, res0, tot, None)"
    and hb: "HandshakeBytes res = int (length raw)" and rb: "RecordsBytes res = tot"
    and pq: "PQCHint res = (Contains raw [0x11, 0xec] \<or> PQCHint res0)"
    and cl: "ClientHelloLen res = ClientHelloLen res0"
    by (rule ParseClientHello_None)
  from read_records_shape [OF rr pending_start] obtain recs rest where
    s: "recs \<noteq> []" "r = concat (map wire recs) @ rest" "list_all handshake_record recs"
      "tot = 0 + 5 * int (length recs) + int (length (payload recs))"
      "assembled [] Result_zero recs raw res0"
    by blast
  note a = s(5) [unfolded assembled_def]
  have "Result_zero\<lparr>ClientHelloLen := ClientHelloLen res0\<rparr> = res0" using a by blast
  then have "PQCHint res0 = PQCHint Result_zero"
    by (metis Result.select_convs(3) Result.surjective Result.update_convs(4))
  then have hint: "PQCHint res = Contains raw [0x11, 0xec]"
    by (simp add: pq Result_zero_def)
  have "RecordsBytes res = 5 * int (length recs) + int (length (payload recs))"
    using s(4) by (simp add: rb)
  moreover note hb cl
  ultimately show ?thesis
    using s(1-3) a hint by (intro exI [of _ recs] exI [of _ rest]) simp
qed

lemmas hello_eval =
  ParseClientHello_def read_records.simps handshake_header_def be16_def be24_def
  Result_zero_def Let_def

lemmas body_eval =
  parse_body_def u16_values_def ext_loop.simps Itoa_def digits.simps isGrease_def
  grease_values_def

text \<open>
  The minimal hello of the package test: one record, one cipher suite, no extensions.
  The walk counts the suite and builds the JA3 string \<open>771,4865,,,\<close>.
\<close>

lemma S1_minimal_hello:
  "ParseClientHello md5hex
      [0x16, 0x03, 0x01, 0x00, 0x2F,
       0x01, 0x00, 0x00, 0x2B, 0x03, 0x03,
       0, 1, 2, 3, 4, 5, 6, 7, 8, 9, 10, 11, 12, 13, 14, 15,
       16, 17, 18, 19, 20, 21, 22, 23, 24, 25, 26, 27, 28, 29, 30, 31,
       0x00, 0x00, 0x02, 0x13, 0x01, 0x01, 0x00, 0x00, 0x00]
   = ([0x01, 0x00, 0x00, 0x2B, 0x03, 0x03,
       0, 1, 2, 3, 4, 5, 6, 7, 8, 9, 10, 11, 12, 13, 14, 15,
       16, 17, 18, 19, 20, 21, 22, 23, 24, 25, 26, 27, 28, 29, 30, 31,
       0x00, 0x00, 0x02, 0x13, 0x01, 0x01, 0x00, 0x00, 0x00],
      \<lparr>HandshakeBytes = 47, RecordsBytes = 52, PQCHint = False, ClientHelloLen = 43,
        SNI = [], ALPN = [], CipherSuites = 1, JA3 = md5hex ''771,4865,,,''\<rparr>,
      None)"
  by (simp add: hello_eval body_eval char_of_def bit_Suc_0_iff)

text \<open>
  C6: whenever \<open>ParseClientHello\<close> succeeds, \<open>handshake_bytes\<close> is at least 4 and equals
  \<open>client_hello_len + 4\<close>, where \<open>client_hello_len\<close> is the big-endian value of the
  three length bytes of the handshake header (bytes 1 to 3 of the returned message,
  whose byte 0 is the ClientHello type \<open>0x01\<close>).
\<close>

theorem C6_handshake_bytes:
  assumes "ParseClientHello md5hex r = (raw, res, None)"
  shows "4 \<le> HandshakeBytes res \<and>
         HandshakeBytes res = ClientHelloLen res + 4 \<and>
         HandshakeBytes res = int (length raw) \<and>
         raw ! 0 = 0x01 \<and>
         ClientHelloLen res = 65536 * uint (raw ! 1) + 256 * uint (raw ! 2) + uint (raw ! 3)"
proof -
  from ParseClientHello_shape [OF assms] have
    hb: "HandshakeBytes res = int (length raw)" and l4: "4 \<le> length raw"
    and t: "raw ! 0 = 0x01" and n: "int (length raw) = ClientHelloLen res + 4"
    and hl: "ClientHelloLen res = be24 (raw ! 1) (raw ! 2) (raw ! 3)"
    by blast+
  from hl have "ClientHelloLen res = 65536 * uint (raw ! 1) + 256 * uint (raw ! 2) + uint (raw ! 3)"
    by (simp only: be24_arith)
  with hb l4 t n show ?thesis by simp
qed

theorem C6_handshake_bytes_witness:
  "snd (snd (ParseClientHello no_digest
      [0x16, 0x03, 0x01, 0x00, 0x2F,
       0x01, 0x00, 0x00, 0x2B, 0x03, 0x03,
       0, 1, 2, 3, 4, 5, 6, 7, 8, 9, 10, 11, 12, 13, 14, 15,
       16, 17, 18, 19, 20, 21, 22, 23, 24, 25, 26, 27, 28, 29, 30, 31,
       0x00, 0x00, 0x02, 0x13, 0x01, 0x01, 0x00, 0x00, 0x00])) = None \<and>
   HandshakeBytes (fst (snd (ParseClientHello no_digest
      [0x16, 0x03, 0x01, 0x00, 0x2F,
       0x01, 0x00, 0x00, 0x2B, 0x03, 0x03,
       0, 1, 2, 3, 4, 5, 6, 7, 8, 9, 10, 11, 12, 13, 14, 15,
       16, 17, 18, 19, 20, 21, 22, 23, 24, 25, 26, 27, 28, 29, 30, 31,
       0x00, 0x00, 0x02, 0x13, 0x01, 0x01, 0x00, 0x00, 0x00]))) = 43 + 4"
proof -
  let ?inp = "[0x16, 0x03, 0x01, 0x00, 0x2F,
       0x01, 0x00, 0x00, 0x2B, 0x03, 0x03,
       0, 1, 2, 3, 4, 5, 6, 7, 8, 9, 10, 11, 12, 13, 14, 15,
       16, 17, 18, 19, 20, 21, 22, 23, 24, 25, 26, 27, 28, 29, 30, 31,
       0x00, 0x00, 0x02, 0x13, 0x01, 0x01, 0x00, 0x00, 0x00] :: byte list"
  obtain raw res err where p: "ParseClientHello no_digest ?inp = (raw, res, err)"
    by (cases "ParseClientHello no_digest ?inp") auto
  have e: "err = None" and c: "ClientHelloLen res = 43"
    using p by (auto simp: hello_eval)
  from C6_handshake_bytes [of no_digest ?inp raw res] p e c show ?thesis
    by simp
qed

text \<open>
  C2 (as stated, refuted): the difference \<open>records_bytes - handshake_bytes\<close> would always
  be a multiple of 5. A single five-byte record that carries an empty ClientHello
  (\<open>01 00 00 00\<close>) followed by one more byte is accepted; \<open>handshake_bytes\<close> is 4,
  \<open>records_bytes\<close> is 10, and the difference 6 is not a multiple of 5.
\<close>

theorem C2_trailing_byte_difference:
  "snd (snd (ParseClientHello no_digest [0x16, 3, 1, 0, 5, 1, 0, 0, 0, 7])) = None \<and>
   \<not> 5 dvd (RecordsBytes (fst (snd (ParseClientHello no_digest [0x16, 3, 1, 0, 5, 1, 0, 0, 0, 7]))) -
            HandshakeBytes (fst (snd (ParseClientHello no_digest [0x16, 3, 1, 0, 5, 1, 0, 0, 0, 7]))))"
  by (simp add: hello_eval)

text \<open>
  C2 (amended): whenever \<open>ParseClientHello\<close> succeeds, the input starts with a non-empty
  sequence of handshake records, the returned message is the first \<open>handshake_bytes\<close>
  bytes of their concatenated bodies and reaches into the last of them, and
  \<open>records_bytes - handshake_bytes\<close> is 5 times the number of those records plus the
  number of body bytes that follow the message in the last record. Hence
  \<open>records_bytes \<ge> handshake_bytes + 5\<close>, and the difference is a multiple of 5 when the
  message ends where the last record ends.
\<close>

theorem C2_records_bytes:
  assumes "ParseClientHello md5hex r = (raw, res, None)"
  shows "HandshakeBytes res + 5 \<le> RecordsBytes res \<and>
         (\<exists>recs rest. recs \<noteq> [] \<and> list_all handshake_record recs \<and>
            r = concat (map wire recs) @ rest \<and>
            HandshakeBytes res = int (length raw) \<and>
            raw = take (length raw) (payload recs) \<and>
            length (payload (butlast recs)) < length raw \<and>
            length raw \<le> length (payload recs) \<and>
            RecordsBytes res - HandshakeBytes res =
              5 * int (length recs) + int (length (payload recs) - length raw))"
proof -
  from ParseClientHello_shape [OF assms] obtain recs rest where
    ne: "recs \<noteq> []" and wf: "list_all handshake_record recs"
    and r: "r = concat (map wire recs) @ rest"
    and rb: "RecordsBytes res = 5 * int (length recs) + int (length (payload recs))"
    and hb: "HandshakeBytes res = int (length raw)"
    and raw: "raw = take (length raw) (payload recs)"
    and le: "length raw \<le> length (payload recs)"
    and last: "length (payload (butlast recs)) < length raw"
    by blast
  have diff: "RecordsBytes res - HandshakeBytes res =
      5 * int (length recs) + int (length (payload recs) - length raw)"
    using rb hb le by simp
  have "1 \<le> length recs" using ne by (cases recs) simp_all
  then have "HandshakeBytes res + 5 \<le> RecordsBytes res"
    using diff by simp
  moreover have "\<exists>recs rest. recs \<noteq> [] \<and> list_all handshake_record recs \<and>
            r = concat (map wire recs) @ rest \<and>
            HandshakeBytes res = int (length raw) \<and>
            raw = take (length raw) (payload recs) \<and>
            length (payload (butlast recs)) < length raw \<and>
            length raw \<le> length (payload recs) \<and>
            RecordsBytes res - HandshakeBytes res =
              5 * int (length recs) + int (length (payload recs) - length raw)"
    using ne wf r hb raw last le diff by blast
  ultimately show ?thesis by blast
qed

theorem C2_records_bytes_witness:
  "snd (snd (ParseClientHello no_digest
      [0x16, 3, 1, 0, 2, 1, 0, 0x16, 3, 1, 0, 3, 0, 1, 9])) = None \<and>
   HandshakeBytes (fst (snd (ParseClientHello no_digest
      [0x16, 3, 1, 0, 2, 1, 0, 0x16, 3, 1, 0, 3, 0, 1, 9]))) + 5 \<le>
   RecordsBytes (fst (snd (ParseClientHello no_digest
      [0x16, 3, 1, 0, 2, 1, 0, 0x16, 3, 1, 0, 3, 0, 1, 9])))"
proof -
  let ?inp = "[0x16, 3, 1, 0, 2, 1, 0, 0x16, 3, 1, 0, 3, 0, 1, 9] :: byte list"
  obtain raw res err where p: "ParseClientHello no_digest ?inp = (raw, res, err)"
    by (cases "ParseClientHello no_digest ?inp") auto
  have e: "err = None"
    using p by (auto simp: hello_eval)
  from C2_records_bytes [of no_digest ?inp raw res] p e
  have "HandshakeBytes res + 5 \<le> RecordsBytes res" by simp
  then show ?thesis using p e by simp
qed

text \<open>
  C3 (as stated, refuted): the hint would be set when the byte \<open>0xEC\<close> followed by
  \<open>0x11\<close> occurs in the assembled handshake bytes. On a hello whose body is exactly
  \<open>EC 11\<close> the pair occurs and the hint stays false.
\<close>

theorem C3_reversed_pair_no_hint:
  "fst (ParseClientHello no_digest [0x16, 3, 1, 0, 6, 1, 0, 0, 2, 0xEC, 0x11])
     = [1, 0, 0, 2] @ [0xEC, 0x11] @ [] \<and>
   snd (snd (ParseClientHello no_digest [0x16, 3, 1, 0, 6, 1, 0, 0, 2, 0xEC, 0x11])) = None \<and>
   \<not> PQCHint (fst (snd (ParseClientHello no_digest [0x16, 3, 1, 0, 6, 1, 0, 0, 2, 0xEC, 0x11])))"
  by (simp add: hello_eval)

text \<open>
  C3 (amended): whenever \<open>ParseClientHello\<close> succeeds, \<open>pqc_hint\<close> is true if and only if
  the byte \<open>0x11\<close> immediately followed by \<open>0xEC\<close> (the big-endian encoding of group id
  \<open>0x11EC\<close>) occurs somewhere in the returned handshake bytes.
\<close>

theorem C3_pqc_hint:
  assumes "ParseClientHello md5hex r = (raw, res, None)"
  shows "PQCHint res \<longleftrightarrow> (\<exists>pre post. raw = pre @ [0x11, 0xEC] @ post)"
proof -
  from ParseClientHello_shape [OF assms]
  have "PQCHint res = Contains raw [0x11, 0xec]" by blast
  then show ?thesis by (simp only: Contains_iff)
qed

theorem C3_pqc_hint_witness:
  "PQCHint (fst (snd (ParseClientHello no_digest [0x16, 3, 1, 0, 6, 1, 0, 0, 2, 0x11, 0xEC])))"
proof -
  let ?inp = "[0x16, 3, 1, 0, 6, 1, 0, 0, 2, 0x11, 0xEC] :: byte list"
  obtain raw res err where p: "ParseClientHello no_digest ?inp = (raw, res, err)"
    by (cases "ParseClientHello no_digest ?inp") auto
  have e: "err = None" and raw: "raw = [1, 0, 0, 2] @ [0x11, 0xEC] @ []"
    using p by (auto simp: hello_eval)
  from raw have "\<exists>pre post. raw = pre @ [0x11, 0xEC] @ post" by blast
  with C3_pqc_hint [of no_digest ?inp raw res] p e show ?thesis by simp
qed

subsection \<open>Rule matching\<close>

lemma Match_rules_first:
  "(snd (Match_rules rs res) \<and>
      (\<exists>i<length rs. Predicate (rs ! i) res \<and> (\<forall>j<i. \<not> Predicate (rs ! j) res) \<and>
         Match_rules rs res = (Profile_rule (rs ! i), True))) \<or>
   (Match_rules rs res = ([], False) \<and> (\<forall>r\<in>set rs. \<not> Predicate r res))"
proof (induction rs)
  case Nil
  then show ?case by simp
next
  case (Cons r rs)
  show ?case
  proof (cases "Predicate r res")
    case True
    then have "Predicate ((r # rs) ! 0) res \<and> (\<forall>j<0. \<not> Predicate ((r # rs) ! j) res) \<and>
        Match_rules (r # rs) res = (Profile_rule ((r # rs) ! 0), True)"
      by simp
    then have "\<exists>i<length (r # rs). Predicate ((r # rs) ! i) res \<and>
        (\<forall>j<i. \<not> Predicate ((r # rs) ! j) res) \<and>
        Match_rules (r # rs) res = (Profile_rule ((r # rs) ! i), True)"
      by (intro exI [of _ 0]) simp
    moreover have "snd (Match_rules (r # rs) res)" using True by simp
    ultimately show ?thesis by blast
  next
    case False
    from Cons.IH show ?thesis
    proof
      assume "snd (Match_rules rs res) \<and>
        (\<exists>i<length rs. Predicate (rs ! i) res \<and> (\<forall>j<i. \<not> Predicate (rs ! j) res) \<and>
           Match_rules rs res = (Profile_rule (rs ! i), True))"
      then obtain i where i: "i < length rs" "Predicate (rs ! i) res"
        "\<forall>j<i. \<not> Predicate (rs ! j) res" "Match_rules rs res = (Profile_rule (rs ! i), True)"
        by blast
      have "\<forall>j<Suc i. \<not> Predicate ((r # rs) ! j) res"
        using False i(3) by (auto simp: nth_Cons split: nat.splits)
      with i False have "Suc i < length (r # rs) \<and> Predicate ((r # rs) ! Suc i) res \<and>
        (\<forall>j<Suc i. \<not> Predicate ((r # rs) ! j) res) \<and>
        Match_rules (r # rs) res = (Profile_rule ((r # rs) ! Suc i), True)"
        by simp
      then have "\<exists>k<length (r # rs). Predicate ((r # rs) ! k) res \<and>
        (\<forall>j<k. \<not> Predicate ((r # rs) ! j) res) \<and>
        Match_rules (r # rs) res = (Profile_rule ((r # rs) ! k), True)"
        by blast
      moreover have "snd (Match_rules (r # rs) res)" using False i(4) by simp
      ultimately show ?thesis by blast
    next
      assume "Match_rules rs res = ([], False) \<and> (\<forall>r\<in>set rs. \<not> Predicate r res)"
      with False show ?thesis by simp
    qed
  qed
qed

text \<open>
  C8: for every rule set and every hello result, \<open>Match\<close> returns the profile of the
  first rule, in load order, whose predicate is true, with the flag true; when no
  predicate is true it returns the empty name with the flag false; in particular the
  empty rule set never matches.
\<close>

theorem C8_first_match_wins:
  "((\<exists>i<length (Rules s). Predicate (Rules s ! i) res \<and>
        (\<forall>j<i. \<not> Predicate (Rules s ! j) res) \<and>
        Match s res = (Profile_rule (Rules s ! i), True)) \<or>
    (Match s res = ([], False) \<and> (\<forall>r\<in>set (Rules s). \<not> Predicate r res))) \<and>
   Match \<lparr>Rules = []\<rparr> res = ([], False)"
  using Match_rules_first [of "Rules s" res]
  by (auto simp: Match_def)

theorem C8_first_match_wins_witness:
  "Match \<lparr>Rules =
      [\<lparr>Raw = ''when ch_bytes > 100 then MTU1300_BLACKHOLE'',
        Predicate = (\<lambda>r. HandshakeBytes r > 100),
        Profile_rule = ''MTU1300_BLACKHOLE''\<rparr>,
       \<lparr>Raw = ''when pqc_hint == false then ABORT_AFTER_CH'',
        Predicate = (\<lambda>r. PQCHint r = False),
        Profile_rule = ''ABORT_AFTER_CH''\<rparr>]\<rparr>
     (Result_zero\<lparr>HandshakeBytes := 50\<rparr>) = (''ABORT_AFTER_CH'', True)"
  using C8_first_match_wins [of
      "\<lparr>Rules =
        [\<lparr>Raw = ''when ch_bytes > 100 then MTU1300_BLACKHOLE'',
          Predicate = (\<lambda>r. HandshakeBytes r > 100),
          Profile_rule = ''MTU1300_BLACKHOLE''\<rparr>,
         \<lparr>Raw = ''when pqc_hint == false then ABORT_AFTER_CH'',
          Predicate = (\<lambda>r. PQCHint r = False),
          Profile_rule = ''ABORT_AFTER_CH''\<rparr>]\<rparr>"
      "Result_zero\<lparr>HandshakeBytes := 50\<rparr>"]
  by (auto simp: Result_zero_def less_Suc_eq)

subsection \<open>Rule loading\<close>



lemma Parse_lines_error_empty:
  "snd (Parse_lines lines n rs) \<noteq> None \<Longrightarrow> fst (Parse_lines lines n rs) = \<lparr>Rules = []\<rparr>"
  by (induction lines arbitrary: n rs) (auto simp: Let_def split: sum.splits)







subsection \<open>Unvalidated rule actions\<close>

lemma isSpace_code: "isSpace c \<longleftrightarrow> (of_char c :: nat) \<in> {9, 10, 11, 12, 13, 32}"
  using of_char_eq_iff [where ?'a = nat, of c "CHR 0x09"]
    of_char_eq_iff [where ?'a = nat, of c "CHR 0x0A"]
    of_char_eq_iff [where ?'a = nat, of c "CHR 0x0B"]
    of_char_eq_iff [where ?'a = nat, of c "CHR 0x0C"]
    of_char_eq_iff [where ?'a = nat, of c "CHR 0x0D"]
    of_char_eq_iff [where ?'a = nat, of c "CHR 0x20"]
  by (simp add: isSpace_def)

lemma toUpper_toLower: "toUpper (toLower c) = toUpper c"
  by (auto simp: toUpper_def toLower_def Let_def of_char_of)

lemma isSpace_toLower: "isSpace (toLower c) = isSpace c"
  by (auto simp: isSpace_code toLower_def Let_def of_char_of)

lemma toUpper_not_lower:
  "\<not> (97 \<le> (of_char (toUpper c) :: nat) \<and> (of_char (toUpper c) :: nat) \<le> 122)"
  by (auto simp: toUpper_def Let_def of_char_of)

lemma TrimSpace_ToLower: "TrimSpace (ToLower s) = ToLower (TrimSpace s)"
proof -
  have c: "isSpace \<circ> toLower = isSpace" by (rule ext) (simp add: isSpace_toLower)
  show ?thesis
    by (simp add: TrimSpace_def ToLower_def dropWhile_map rev_map c)
qed

lemma ToUpper_ToLower: "ToUpper (ToLower s) = ToUpper s"
  by (simp add: ToUpper_def ToLower_def toUpper_toLower)

lemma parseLine_any_action:
  assumes "TrimSpace act \<noteq> []"
  shows "parseLine (''when ch_bytes > 0 then '' @ act) =
     Inr \<lparr>Raw = ''when ch_bytes > 0 then '' @ act,
          Predicate = (\<lambda>r. HandshakeBytes r > 0),
          Profile_rule = ToUpper (TrimSpace act)\<rparr>"
proof -
  have l: "ToLower (''when ch_bytes > 0 then '' @ act) = ''when ch_bytes > 0 then '' @ ToLower act"
    by (simp add: ToLower_def toLower_def)
  have s: "SplitN2 (''ch_bytes > 0 then '' @ ToLower act) '' then '' = [''ch_bytes > 0'', ToLower act]"
    by (simp add: SplitN2_def)
  have t: "TrimSpace ''ch_bytes > 0'' = ''ch_bytes > 0''"
    by (simp add: TrimSpace_def isSpace_def)
  have f: "Fields ''ch_bytes > 0'' = [''ch_bytes'', ''>'', ''0'']"
    by (simp add: Fields_def isSpace_def)
  have c: "condition_predicate ''ch_bytes'' ''>'' ''0'' = Inr (\<lambda>r. HandshakeBytes r > 0)"
    by (simp add: condition_predicate_def numeric_predicate_def parseInt_def Atoi_def isDigit_def)
  have p: "ToUpper (TrimSpace (ToLower act)) = ToUpper (TrimSpace act)"
    by (simp add: TrimSpace_ToLower ToUpper_ToLower)
  have ne: "ToUpper (TrimSpace act) \<noteq> []"
    using assms by (simp add: ToUpper_def)
  show ?thesis
    unfolding parseLine_def l
    using ne by (simp add: s [simplified] t [simplified] f [simplified] c [simplified] p Let_def)
qed

lemma parseLine_Inr:
  assumes "parseLine line = Inr rw"
  shows "\<exists>cond action. prefix ''when '' (ToLower line) \<and>
           Cut [] '' then '' (drop (length ''when '') (ToLower line)) = Some (cond, action) \<and>
           Profile_rule rw = ToUpper (TrimSpace action) \<and> Profile_rule rw \<noteq> [] \<and>
           Raw rw = line"
  using assms
  by (auto simp: parseLine_def SplitN2_def Let_def split: if_splits option.splits sum.splits)

lemma parseLine_action_free:
  assumes "prefix ''when '' (ToLower l1)" "prefix ''when '' (ToLower l2)"
    and "Cut [] '' then '' (drop (length ''when '') (ToLower l1)) = Some (cond, a1)"
    and "Cut [] '' then '' (drop (length ''when '') (ToLower l2)) = Some (cond, a2)"
    and "TrimSpace a1 \<noteq> []" "TrimSpace a2 \<noteq> []"
  shows "isl (parseLine l1) = isl (parseLine l2)"
  using assms
  by (auto simp: parseLine_def SplitN2_def Let_def ToUpper_def split: if_splits option.splits sum.splits)

text \<open>
  C10: rule parsing accepts any action after \<open>then\<close> that is not blank, whether or not
  it names a defined profile. The profile of every rule that parses is the text after
  the first \<open>then\<close>, trimmed and upper-cased, and whether a line parses does not depend
  on that text as long as it is not blank. In particular the rule
  \<open>when ch_bytes > 0 then A\<close> parses for every ASCII text \<open>A\<close> that is not all white
  space; its profile has no lower-case letter left, it matches every hello with a
  positive \<open>ch_bytes\<close>, and when its profile is none of \<open>ABORT_AFTER_CH\<close>,
  \<open>MTU1300_BLACKHOLE\<close>, \<open>LATENCY_50MS_JITTER_10\<close> and \<open>BANDWIDTH_1MBPS\<close>, the dispatch of
  the connection engine runs clean pass-through for it.
\<close>

theorem C10_action_not_validated:
  assumes "isASCII act" and "TrimSpace act \<noteq> []"
  shows "(\<exists>rw. parseLine (''when ch_bytes > 0 then '' @ act) = Inr rw \<and>
           Raw rw = ''when ch_bytes > 0 then '' @ act \<and>
           Profile_rule rw = ToUpper (TrimSpace act) \<and>
           Profile_rule rw \<noteq> [] \<and>
           (\<forall>c\<in>set (Profile_rule rw). \<not> (97 \<le> (of_char c :: nat) \<and> (of_char c :: nat) \<le> 122)) \<and>
           (\<forall>res. 0 < HandshakeBytes res \<longrightarrow>
              Match \<lparr>Rules = [rw]\<rparr> res = (Profile_rule rw, True)) \<and>
           (Profile_rule rw \<notin> {ProfileAbortAfterCH, ProfileMTUBlackhole,
                                ProfileLatencyJitter, ProfileBandwidthLimit} \<longrightarrow>
              (\<forall>cfg. HandleConnection True (cfg\<lparr>Profile := Profile_rule rw\<rparr>)
                 = Inr CleanPassthrough))) \<and>
         (\<forall>line rw. parseLine line = Inr rw \<longrightarrow>
            (\<exists>cond action. prefix ''when '' (ToLower line) \<and>
               Cut [] '' then '' (drop (length ''when '') (ToLower line)) = Some (cond, action) \<and>
               Profile_rule rw = ToUpper (TrimSpace action) \<and> Profile_rule rw \<noteq> [] \<and>
               Raw rw = line)) \<and>
         (\<forall>l1 l2 cond a1 a2.
            prefix ''when '' (ToLower l1) \<and> prefix ''when '' (ToLower l2) \<and>
            Cut [] '' then '' (drop (length ''when '') (ToLower l1)) = Some (cond, a1) \<and>
            Cut [] '' then '' (drop (length ''when '') (ToLower l2)) = Some (cond, a2) \<and>
            TrimSpace a1 \<noteq> [] \<and> TrimSpace a2 \<noteq> [] \<longrightarrow>
            isl (parseLine l1) = isl (parseLine l2))"
proof -
  let ?rw = "\<lparr>Raw = ''when ch_bytes > 0 then '' @ act,
              Predicate = (\<lambda>r. HandshakeBytes r > 0),
              Profile_rule = ToUpper (TrimSpace act)\<rparr>"
  have p: "parseLine (''when ch_bytes > 0 then '' @ act) = Inr ?rw"
    using assms(2) by (rule parseLine_any_action)
  have ne: "Profile_rule ?rw \<noteq> []"
    using assms(2) by (simp add: ToUpper_def)
  have up: "\<forall>c\<in>set (Profile_rule ?rw). \<not> (97 \<le> (of_char c :: nat) \<and> (of_char c :: nat) \<le> 122)"
    using toUpper_not_lower by (auto simp: ToUpper_def)
  have m: "\<forall>res. 0 < HandshakeBytes res \<longrightarrow>
      Match \<lparr>Rules = [?rw]\<rparr> res = (Profile_rule ?rw, True)"
    by (simp add: Match_def)
  have d: "Profile_rule ?rw \<notin> {ProfileAbortAfterCH, ProfileMTUBlackhole,
                                ProfileLatencyJitter, ProfileBandwidthLimit} \<longrightarrow>
      (\<forall>cfg. HandleConnection True (cfg\<lparr>Profile := Profile_rule ?rw\<rparr>) = Inr CleanPassthrough)"
    by (simp add: HandleConnection_def dispatch_def)
  have r: "Raw ?rw = ''when ch_bytes > 0 then '' @ act"
    and pr: "Profile_rule ?rw = ToUpper (TrimSpace act)"
    by simp_all
  from p r pr ne up m d have one: "\<exists>rw. parseLine (''when ch_bytes > 0 then '' @ act) = Inr rw \<and>
           Raw rw = ''when ch_bytes > 0 then '' @ act \<and>
           Profile_rule rw = ToUpper (TrimSpace act) \<and>
           Profile_rule rw \<noteq> [] \<and>
           (\<forall>c\<in>set (Profile_rule rw). \<not> (97 \<le> (of_char c :: nat) \<and> (of_char c :: nat) \<le> 122)) \<and>
           (\<forall>res. 0 < HandshakeBytes res \<longrightarrow>
              Match \<lparr>Rules = [rw]\<rparr> res = (Profile_rule rw, True)) \<and>
           (Profile_rule rw \<notin> {ProfileAbortAfterCH, ProfileMTUBlackhole,
                                ProfileLatencyJitter, ProfileBandwidthLimit} \<longrightarrow>
              (\<forall>cfg. HandleConnection True (cfg\<lparr>Profile := Profile_rule rw\<rparr>)
                 = Inr CleanPassthrough))"
    by (intro exI [of _ ?rw] conjI)
  have two: "\<forall>line rw. parseLine line = Inr rw \<longrightarrow>
            (\<exists>cond action. prefix ''when '' (ToLower line) \<and>
               Cut [] '' then '' (drop (length ''when '') (ToLower line)) = Some (cond, action) \<and>
               Profile_rule rw = ToUpper (TrimSpace action) \<and> Profile_rule rw \<noteq> [] \<and>
               Raw rw = line)"
    using parseLine_Inr by blast
  have three: "\<forall>l1 l2 cond a1 a2.
            prefix ''when '' (ToLower l1) \<and> prefix ''when '' (ToLower l2) \<and>
            Cut [] '' then '' (drop (length ''when '') (ToLower l1)) = Some (cond, a1) \<and>
            Cut [] '' then '' (drop (length ''when '') (ToLower l2)) = Some (cond, a2) \<and>
            TrimSpace a1 \<noteq> [] \<and> TrimSpace a2 \<noteq> [] \<longrightarrow>
            isl (parseLine l1) = isl (parseLine l2)"
    using parseLine_action_free by blast
  from one two three show ?thesis by (intro conjI)
qed

theorem C10_action_not_validated_witness:
  "\<exists>rw. parseLine ''when ch_bytes > 0 then bogus_profile'' = Inr rw \<and>
     Profile_rule rw = ''BOGUS_PROFILE'' \<and>
     HandleConnection True (Config_zero\<lparr>Profile := Profile_rule rw\<rparr>) = Inr CleanPassthrough"
proof -
  have a: "isASCII ''bogus_profile''"
    by (simp add: isASCII_def)
  have t: "TrimSpace ''bogus_profile'' = ''bogus_profile''"
    by (simp add: TrimSpace_def isSpace_def)
  have u: "ToUpper ''bogus_profile'' = ''BOGUS_PROFILE''"
    by (simp add: ToUpper_def toUpper_def char_of_def bit_Suc_0_iff)
  have n: "TrimSpace ''bogus_profile'' \<noteq> []"
    by (simp add: t)
  from C10_action_not_validated [OF a n, THEN conjunct1] obtain rw where
    rw: "parseLine (''when ch_bytes > 0 then '' @ ''bogus_profile'') = Inr rw"
      "Profile_rule rw = ToUpper (TrimSpace ''bogus_profile'')"
      "Profile_rule rw \<notin> {ProfileAbortAfterCH, ProfileMTUBlackhole,
                                ProfileLatencyJitter, ProfileBandwidthLimit} \<longrightarrow>
         (\<forall>cfg. HandleConnection True (cfg\<lparr>Profile := Profile_rule rw\<rparr>) = Inr CleanPassthrough)"
    by blast
  have pr: "Profile_rule rw = ''BOGUS_PROFILE''"
    using rw(2) by (simp only: t u)
  then have "Profile_rule rw \<notin> {ProfileAbortAfterCH, ProfileMTUBlackhole,
                                ProfileLatencyJitter, ProfileBandwidthLimit}"
    by (simp add: Profile_defs)
  with rw(3) have "HandleConnection True (Config_zero\<lparr>Profile := Profile_rule rw\<rparr>)
      = Inr CleanPassthrough"
    by blast
  with rw(1) pr show ?thesis by auto
qed

subsection \<open>Receipts\<close>

lemma serve_conn_RuleMatched_applied:
  "RuleMatched (serve_conn md5hex connId now ca ua st rs r handle)
     = AppliedProfile (serve_conn md5hex connId now ca ua st rs r handle)"
  by (simp add: serve_conn_def Let_def split: prod.splits)

lemma serve_conn_RuleMatched:
  "RuleMatched (serve_conn md5hex connId now ca ua st rs r handle) =
     (if snd (snd (ParseClientHello md5hex r)) = None \<and>
         snd (Match rs (fst (snd (ParseClientHello md5hex r))))
      then fst (Match rs (fst (snd (ParseClientHello md5hex r))))
      else Profile (Get st))"
  by (simp add: serve_conn_def Let_def split: prod.splits)

text \<open>
  C1 (the code departs from it): the receipt's \<open>rule_matched\<close> should be empty when no
  rule matched. With the start-up state (\<open>CLEAN\<close>, threshold 1300), no rules loaded and a
  well-formed empty ClientHello, the hello parses, no rule matches, and the receipt
  carries \<open>CLEAN\<close> in \<open>rule_matched\<close>: the field is filled from the variable that was
  initialised with the global profile.
\<close>

theorem C1_rule_matched_without_match:
  "snd (snd (ParseClientHello no_digest [0x16, 3, 1, 0, 4, 1, 0, 0, 0])) = None \<and>
   \<not> snd (Match \<lparr>Rules = []\<rparr> (fst (snd (ParseClientHello no_digest [0x16, 3, 1, 0, 4, 1, 0, 0, 0])))) \<and>
   RuleMatched (serve_conn no_digest 1 0 ''10.0.0.1:5000'' ''127.0.0.1:8443''
      (Apply 0 State_zero (Config_zero\<lparr>Profile := ProfileClean, ThresholdBytes := 1300\<rparr>))
      \<lparr>Rules = []\<rparr> [0x16, 3, 1, 0, 4, 1, 0, 0, 0] (\<lambda>cfg. None)) = ''CLEAN''"
proof -
  have p: "snd (snd (ParseClientHello no_digest [0x16, 3, 1, 0, 4, 1, 0, 0, 0])) = None"
    by (simp add: hello_eval)
  have g: "Profile (Get (Apply 0 State_zero
      (Config_zero\<lparr>Profile := ProfileClean, ThresholdBytes := 1300\<rparr>))) = ''CLEAN''"
    by (simp add: Apply_def Get_def Let_def Config_zero_def State_zero_def Profile_defs)
  show ?thesis
    by (simp add: p g serve_conn_RuleMatched Match_def)
qed

end
